theory Spec2Isabelle
  imports Main "HOL-Library.Word"
begin

text \<open>
  The contact-form server of bmdub-api, embedded from two of its three source files:
  src/server.js, which mails through SMTP only, and src/unnamed/part_001, which mails
  through the Brevo HTTP API when an API key is configured and through SMTP otherwise.
  Definitions without suffix follow src/server.js; those of the second file carry the
  suffix \<open>_api\<close>; what the two files share is defined once. The third file,
  src/unnamed/part_000, is an earlier form of src/server.js (no \<^verbatim>\<open>/debug/verify\<close>, a
  mail text that is not trimmed, a fixed text in the 500 response) and is not embedded.
\<close>

section \<open>JavaScript strings\<close>

text \<open>
  A JavaScript string is a sequence of UTF-16 code units; \<^verbatim>\<open>s.length\<close> counts code
  units. \<open>js\<close> turns an ASCII literal into such a string.
\<close>

type_synonym cu = "16 word"
type_synonym jsstring = "cu list"

definition js :: "string \<Rightarrow> jsstring" where
  "js s = map (\<lambda>c. word_of_nat (of_char c)) s"

text \<open>
  The code units that \<^verbatim>\<open>String.prototype.trim\<close> strips and that \<^verbatim>\<open>\s\<close> matches in a
  regular expression without the \<^verbatim>\<open>u\<close> flag: WhiteSpace (TAB, VT, FF, SP, NBSP, ZWNBSP and
  the Unicode space separators) and LineTerminator (LF, CR, LS, PS).
\<close>

definition isWhiteSpace :: "cu \<Rightarrow> bool" where
  "isWhiteSpace c \<longleftrightarrow>
     c = 0x0009 \<or> c = 0x000A \<or> c = 0x000B \<or> c = 0x000C \<or> c = 0x000D \<or> c = 0x0020 \<or>
     c = 0x00A0 \<or> c = 0x1680 \<or> (0x2000 \<le> c \<and> c \<le> 0x200A) \<or> c = 0x2028 \<or>
     c = 0x2029 \<or> c = 0x202F \<or> c = 0x205F \<or> c = 0x3000 \<or> c = 0xFEFF"

definition trim :: "jsstring \<Rightarrow> jsstring" where
  "trim s = rev (dropWhile isWhiteSpace (rev (dropWhile isWhiteSpace s)))"

section \<open>Values of a parsed JSON body\<close>

text \<open>
  \<^verbatim>\<open>express.json()\<close> hands the handler what \<^verbatim>\<open>JSON.parse\<close> returns. A number is kept
  as the string that \<^verbatim>\<open>String(n)\<close> gives for it: \<^verbatim>\<open>0\<close> and \<^verbatim>\<open>-0\<close>, the only falsy
  numbers of JSON, are the ones rendered \<^verbatim>\<open>"0"\<close>. An object is the list of its own
  properties, each key once. \<open>None\<close> of type \<open>json option\<close> is \<^verbatim>\<open>undefined\<close>.
\<close>

datatype json =
    JNull
  | JBool bool
  | JNum jsstring
  | JStr jsstring
  | JArr "json list"
  | JObj "(jsstring \<times> json) list"

datatype js_error = JsError (err_name: jsstring) (err_message: jsstring)

definition TypeError_toPrimitive :: js_error where
  "TypeError_toPrimitive = JsError (js ''TypeError'') (js ''Cannot convert object to primitive value'')"

fun truthy :: "json \<Rightarrow> bool" where
  "truthy JNull = False"
| "truthy (JBool b) = b"
| "truthy (JNum r) = (r \<noteq> js ''0'')"
| "truthy (JStr s) = (s \<noteq> [])"
| "truthy (JArr xs) = True"
| "truthy (JObj kvs) = True"

text \<open>\<^verbatim>\<open>a || b\<close> and \<^verbatim>\<open>a ?? b\<close> on a value that may be undefined.\<close>

fun or_else :: "json option \<Rightarrow> json \<Rightarrow> json" where
  "or_else None d = d"
| "or_else (Some v) d = (if truthy v then v else d)"

fun nullish_else :: "json option \<Rightarrow> json \<Rightarrow> json" where
  "nullish_else None d = d"
| "nullish_else (Some JNull) d = d"
| "nullish_else (Some v) d = v"

fun join_comma :: "jsstring list \<Rightarrow> jsstring" where
  "join_comma [] = []"
| "join_comma [x] = x"
| "join_comma (x # y # ys) = x @ js '','' @ join_comma (y # ys)"

fun all_or_first_error :: "(js_error + 'a) list \<Rightarrow> js_error + 'a list" where
  "all_or_first_error [] = Inr []"
| "all_or_first_error (Inl e # rs) = Inl e"
| "all_or_first_error (Inr x # rs) =
     (case all_or_first_error rs of Inl e \<Rightarrow> Inl e | Inr xs \<Rightarrow> Inr (x # xs))"

text \<open>
  \<^verbatim>\<open>String(v)\<close>. An array is joined with commas, \<^verbatim>\<open>null\<close> elements giving the empty
  string. An object goes through OrdinaryToPrimitive: a parsed object inherits
  \<^verbatim>\<open>Object.prototype.toString\<close> and yields \<^verbatim>\<open>"[object Object]"\<close>, unless it has an own
  property \<^verbatim>\<open>toString\<close>, which shadows the inherited method and is never callable in
  parsed JSON; \<^verbatim>\<open>valueOf\<close> then returns no primitive either (own: not callable,
  inherited: the object itself), and a TypeError is thrown.
\<close>

fun ToString :: "json \<Rightarrow> js_error + jsstring" where
  "ToString JNull = Inr (js ''null'')"
| "ToString (JBool b) = Inr (if b then js ''true'' else js ''false'')"
| "ToString (JNum r) = Inr r"
| "ToString (JStr s) = Inr s"
| "ToString (JArr xs) =
     (case all_or_first_error (map (\<lambda>x. if x = JNull then Inr [] else ToString x) xs) of
        Inl e \<Rightarrow> Inl e
      | Inr strs \<Rightarrow> Inr (join_comma strs))"
| "ToString (JObj kvs) =
     (if js ''toString'' \<in> fst ` set kvs then Inl TypeError_toPrimitive
      else Inr (js ''[object Object]''))"

text \<open>The values on which \<open>ToString\<close> throws.\<close>

fun throws :: "json \<Rightarrow> bool" where
  "throws (JArr xs) = (\<exists>x\<in>set xs. throws x)"
| "throws (JObj kvs) = (js ''toString'' \<in> fst ` set kvs)"
| "throws v = False"

text \<open>\<^verbatim>\<open>req.body?.k\<close> for the field names the handler reads.\<close>

fun field :: "json option \<Rightarrow> jsstring \<Rightarrow> json option" where
  "field (Some (JObj kvs)) k = map_of kvs k"
| "field b k = None"

section \<open>Helpers of the server\<close>

text \<open>
  \<^verbatim>\<open>function sanitize(s) { return String(s || '').toString().trim(); }\<close> (src/server.js)
  and \<^verbatim>\<open>const sanitize = s => String(s ?? '').trim();\<close> (the variant with the HTTP mail
  API, src/unnamed/part_001; its definitions carry the suffix \<open>_api\<close>).
\<close>

definition sanitize :: "json option \<Rightarrow> js_error + jsstring" where
  "sanitize s = (case ToString (or_else s (JStr [])) of Inl e \<Rightarrow> Inl e | Inr str \<Rightarrow> Inr (trim str))"

definition sanitize_api :: "json option \<Rightarrow> js_error + jsstring" where
  "sanitize_api s =
     (case ToString (nullish_else s (JStr [])) of Inl e \<Rightarrow> Inl e | Inr str \<Rightarrow> Inr (trim str))"

subsection \<open>Regular expressions\<close>

text \<open>
  The fragment of regular expressions the server uses, matched against a whole string
  by derivatives. \<open>lang\<close> is the set of strings an expression denotes.
\<close>

datatype rx =
    Fail
  | Eps
  | Class "cu \<Rightarrow> bool"
  | Alt rx rx
  | Cat rx rx
  | Rep rx

definition Rep1 :: "rx \<Rightarrow> rx" where
  "Rep1 r = Cat r (Rep r)"

fun nullable :: "rx \<Rightarrow> bool" where
  "nullable Fail = False"
| "nullable Eps = True"
| "nullable (Class p) = False"
| "nullable (Alt r s) = (nullable r \<or> nullable s)"
| "nullable (Cat r s) = (nullable r \<and> nullable s)"
| "nullable (Rep r) = True"

fun deriv :: "cu \<Rightarrow> rx \<Rightarrow> rx" where
  "deriv c Fail = Fail"
| "deriv c Eps = Fail"
| "deriv c (Class p) = (if p c then Eps else Fail)"
| "deriv c (Alt r s) = Alt (deriv c r) (deriv c s)"
| "deriv c (Cat r s) =
     (if nullable r then Alt (Cat (deriv c r) s) (deriv c s) else Cat (deriv c r) s)"
| "deriv c (Rep r) = Cat (deriv c r) (Rep r)"

fun matches :: "rx \<Rightarrow> jsstring \<Rightarrow> bool" where
  "matches r [] = nullable r"
| "matches r (c # cs) = matches (deriv c r) cs"

inductive_set star :: "jsstring set \<Rightarrow> jsstring set" for A :: "jsstring set" where
  star_empty: "[] \<in> star A"
| star_step: "u \<in> A \<Longrightarrow> v \<in> star A \<Longrightarrow> u @ v \<in> star A"

definition conc :: "jsstring set \<Rightarrow> jsstring set \<Rightarrow> jsstring set" where
  "conc A B = {u @ v | u v. u \<in> A \<and> v \<in> B}"

fun lang :: "rx \<Rightarrow> jsstring set" where
  "lang Fail = {}"
| "lang Eps = {[]}"
| "lang (Class p) = {[c] | c. p c}"
| "lang (Alt r s) = lang r \<union> lang s"
| "lang (Cat r s) = conc (lang r) (lang s)"
| "lang (Rep r) = star (lang r)"

text \<open>\<^verbatim>\<open>/^[^\s@]+@[^\s@]+\.[^\s@]+$/.test(v || '')\<close>, the same in both variants.\<close>

definition at_sign :: cu where "at_sign = 0x40"
definition full_stop :: cu where "full_stop = 0x2E"

definition not_space_at :: "cu \<Rightarrow> bool" where
  "not_space_at c \<longleftrightarrow> \<not> isWhiteSpace c \<and> c \<noteq> at_sign"

definition email_rx :: rx where
  "email_rx =
     Cat (Rep1 (Class not_space_at))
       (Cat (Class (\<lambda>c. c = at_sign))
         (Cat (Rep1 (Class not_space_at))
           (Cat (Class (\<lambda>c. c = full_stop))
             (Rep1 (Class not_space_at)))))"

definition isEmail :: "jsstring \<Rightarrow> bool" where
  "isEmail v = matches email_rx v"

text \<open>
  \<^verbatim>\<open>const m = /<([^>]+)>/.exec(val || ''); return (m && m[1]) || val;\<close> The search
  tries the start positions from the left. At a \<^verbatim>\<open><\<close> the group takes the longest run of
  code units other than \<^verbatim>\<open>>\<close>; the match succeeds there when the run is not empty and a
  \<^verbatim>\<open>>\<close> follows it (a shorter run is never followed by one). \<open>exec_bracket\<close> is the
  group \<^verbatim>\<open>m[1]\<close> of the first match.
\<close>

definition less_than_sign :: cu where "less_than_sign = 0x3C"
definition greater_than_sign :: cu where "greater_than_sign = 0x3E"

fun exec_bracket :: "jsstring \<Rightarrow> jsstring option" where
  "exec_bracket [] = None"
| "exec_bracket (c # cs) =
     (if c = less_than_sign
         \<and> takeWhile (\<lambda>x. x \<noteq> greater_than_sign) cs \<noteq> []
         \<and> dropWhile (\<lambda>x. x \<noteq> greater_than_sign) cs \<noteq> []
      then Some (takeWhile (\<lambda>x. x \<noteq> greater_than_sign) cs)
      else exec_bracket cs)"

definition extractEmail :: "jsstring \<Rightarrow> jsstring" where
  "extractEmail val = (case exec_bracket val of Some g \<Rightarrow> g | None \<Rightarrow> val)"

section \<open>Mail, backends and responses\<close>

record mail =
  mail_to :: jsstring
  mail_from :: jsstring
  mail_replyTo :: jsstring
  mail_subject :: jsstring
  mail_text :: jsstring

text \<open>The JSON document that \<^verbatim>\<open>sendViaBrevoAPI\<close> posts to the mail API.\<close>

record brevo_request =
  sender_email :: jsstring
  to_email :: jsstring
  replyTo_email :: "jsstring option"
  brevo_subject :: jsstring
  textContent :: jsstring

text \<open>
  What \<^verbatim>\<open>fetch\<close> does: it rejects, or it resolves to a response with a status, a body
  text (\<open>None\<close> when reading it fails) and the outcome of \<^verbatim>\<open>resp.json()\<close>
  (\<open>Some e\<close> when it rejects).
\<close>

datatype fetch_result =
    FetchRejected js_error
  | FetchResponse (resp_status: nat) (resp_text: "jsstring option") (resp_json: "js_error option")

text \<open>
  The outside world of one request: what the SMTP transport and the mail API answer
  to a given message, what \<^verbatim>\<open>transporter.verify()\<close> resolves to within its time limit,
  and the clock.
\<close>

record world =
  sendMail :: "mail \<Rightarrow> js_error option"
  fetch :: "brevo_request \<Rightarrow> fetch_result"
  verify :: "js_error option"
  now_iso :: jsstring

text \<open>One call of a mail backend made by the handler.\<close>

datatype dispatch = SendMail mail | BrevoPost brevo_request

record ratelimit_info =
  rl_limit :: nat
  rl_remaining :: nat
  rl_reset :: nat

datatype payload = Json json | Plain jsstring | NoContent | DefaultNotFound

text \<open>
  A response: status, body, and the \<^verbatim>\<open>RateLimit-*\<close> headers when the limiter has set
  them (the other headers are not modelled).
\<close>

record response =
  status :: nat
  rate_headers :: "ratelimit_info option"
  body :: payload

definition res_json :: "nat \<Rightarrow> json \<Rightarrow> response" where
  "res_json st j = \<lparr>status = st, rate_headers = None, body = Json j\<rparr>"

definition error_body :: "jsstring \<Rightarrow> json" where
  "error_body msg = JObj [(js ''error'', JStr msg)]"

definition ok_skip :: json where
  "ok_skip = JObj [(js ''ok'', JBool True), (js ''skip'', JBool True)]"

definition ok_sent :: json where
  "ok_sent = JObj [(js ''ok'', JBool True), (js ''message'', JStr (js ''Email sent successfully.''))]"

text \<open>
  \<^verbatim>\<open>String(err?.message || err)\<close> for a thrown \<^verbatim>\<open>Error\<close>: its message, or, when that is
  empty, what \<^verbatim>\<open>Error.prototype.toString\<close> gives, the name.
\<close>

definition error_text :: "js_error \<Rightarrow> jsstring" where
  "error_text err = (if err_message err \<noteq> [] then err_message err else err_name err)"

section \<open>Configuration and startup\<close>

record process_env =
  env_BREVO_API_KEY :: "jsstring option"
  env_SMTP_HOST :: "jsstring option"
  env_SMTP_PORT :: "jsstring option"
  env_SMTP_USER :: "jsstring option"
  env_SMTP_PASS :: "jsstring option"
  env_TO_EMAIL :: "jsstring option"
  env_FROM_EMAIL :: "jsstring option"
  env_CORS_ORIGINS :: "jsstring option"

text \<open>A destructuring default applies to \<^verbatim>\<open>undefined\<close> only; \<^verbatim>\<open>!v\<close> holds for the empty string too.\<close>

fun with_default :: "jsstring option \<Rightarrow> jsstring \<Rightarrow> jsstring" where
  "with_default None d = d"
| "with_default (Some v) d = v"

fun missing :: "jsstring option \<Rightarrow> bool" where
  "missing None = True"
| "missing (Some v) = (v = [])"

fun split_on :: "cu \<Rightarrow> jsstring \<Rightarrow> jsstring list" where
  "split_on sep [] = [[]]"
| "split_on sep (c # cs) =
     (if c = sep then [] # split_on sep cs
      else (case split_on sep cs of [] \<Rightarrow> [[c]] | p # ps \<Rightarrow> (c # p) # ps))"

text \<open>\<^verbatim>\<open>.split(',').map(s => s.trim()).filter(Boolean)\<close>\<close>

definition parse_origins :: "jsstring \<Rightarrow> jsstring list" where
  "parse_origins s = filter (\<lambda>x. x \<noteq> []) (map trim (split_on 0x2C s))"

record smtp_options =
  smtp_host :: jsstring
  smtp_port :: jsstring
  smtp_user :: jsstring
  smtp_pass :: jsstring

text \<open>
  The constants of a running server. In src/server.js the transporter always exists
  and there is no API key; in the variant with the mail API the transporter is
  \<^verbatim>\<open>null\<close> when the key is set.
\<close>

record config =
  BREVO_API_KEY :: "jsstring option"
  TO_EMAIL :: jsstring
  FROM_EMAIL :: jsstring
  allowList :: "jsstring list"
  transporter :: "smtp_options option"

datatype started = Exited nat | Listening config

definition smtp_of :: "process_env \<Rightarrow> smtp_options" where
  "smtp_of env =
     \<lparr>smtp_host = with_default (env_SMTP_HOST env) [],
      smtp_port = with_default (env_SMTP_PORT env) (js ''587''),
      smtp_user = with_default (env_SMTP_USER env) [],
      smtp_pass = with_default (env_SMTP_PASS env) []\<rparr>"

definition default_origins :: jsstring where
  "default_origins = js ''https://cwingo.github.io,https://Cwingo.github.io,https://cwingo242.github.io,http://localhost:5173,http://localhost:5174''"

definition default_origins_api :: jsstring where
  "default_origins_api = js ''https://cwingo.github.io,https://Cwingo.github.io,https://cwingo242.github.io,http://localhost:5173''"

text \<open>
  src/server.js, lines 13 to 33: \<^verbatim>\<open>process.exit(1)\<close> when an SMTP setting is missing;
  \<^verbatim>\<open>CORS_ORIGINS || '...'\<close> falls back on the default list for the empty string too.
\<close>

definition startup :: "process_env \<Rightarrow> started" where
  "startup env =
     (if missing (env_SMTP_HOST env) \<or> missing (env_SMTP_USER env) \<or> missing (env_SMTP_PASS env)
      then Exited 1
      else Listening
        \<lparr>BREVO_API_KEY = None,
         TO_EMAIL = with_default (env_TO_EMAIL env) (js ''cmwingo@email.sc.edu''),
         FROM_EMAIL = with_default (env_FROM_EMAIL env) (js ''bmDub Contact <no-reply@bmdub.app>''),
         allowList = parse_origins
           (if missing (env_CORS_ORIGINS env) then default_origins
            else with_default (env_CORS_ORIGINS env) []),
         transporter = Some (smtp_of env)\<rparr>)"

text \<open>
  src/unnamed/part_001, lines 12 to 75: the transporter is created only without an API
  key, and then the SMTP settings are mandatory.
\<close>

definition startup_api :: "process_env \<Rightarrow> started" where
  "startup_api env =
     (if missing (env_BREVO_API_KEY env)
      then
        (if missing (env_SMTP_HOST env) \<or> missing (env_SMTP_USER env) \<or> missing (env_SMTP_PASS env)
         then Exited 1
         else Listening
           \<lparr>BREVO_API_KEY = env_BREVO_API_KEY env,
            TO_EMAIL = with_default (env_TO_EMAIL env) (js ''cmwingo@email.sc.edu''),
            FROM_EMAIL = with_default (env_FROM_EMAIL env) (js ''bmDub Contact <cwingo64@gmail.com>''),
            allowList = parse_origins (with_default (env_CORS_ORIGINS env) default_origins_api),
            transporter = Some (smtp_of env)\<rparr>)
      else Listening
        \<lparr>BREVO_API_KEY = env_BREVO_API_KEY env,
         TO_EMAIL = with_default (env_TO_EMAIL env) (js ''cmwingo@email.sc.edu''),
         FROM_EMAIL = with_default (env_FROM_EMAIL env) (js ''bmDub Contact <cwingo64@gmail.com>''),
         allowList = parse_origins (with_default (env_CORS_ORIGINS env) default_origins_api),
         transporter = None\<rparr>)"

section \<open>The contact handler\<close>

text \<open>The six sanitized fields, named as the handler's constants.\<close>

record submission =
  name :: jsstring
  email :: jsstring
  subject :: jsstring
  message :: jsstring
  source :: jsstring
  honeypot :: jsstring

text \<open>
  The six calls of \<^verbatim>\<open>sanitize\<close> that open the handler, in their order; a call that
  throws ends them. The function takes the sanitizer of the variant.
\<close>

definition read_fields ::
  "(json option \<Rightarrow> js_error + jsstring) \<Rightarrow> json option \<Rightarrow> js_error + submission" where
  "read_fields san b =
     (case san (field b (js ''name'')) of Inl e \<Rightarrow> Inl e | Inr n \<Rightarrow>
      case san (field b (js ''email'')) of Inl e \<Rightarrow> Inl e | Inr em \<Rightarrow>
      case san (field b (js ''subject'')) of Inl e \<Rightarrow> Inl e | Inr su \<Rightarrow>
      case san (field b (js ''message'')) of Inl e \<Rightarrow> Inl e | Inr me \<Rightarrow>
      case san (field b (js ''source'')) of Inl e \<Rightarrow> Inl e | Inr so \<Rightarrow>
      case san (field b (js ''website'')) of Inl e \<Rightarrow> Inl e | Inr ho \<Rightarrow>
      Inr \<lparr>name = n, email = em, subject = su, message = me, source = so, honeypot = ho\<rparr>)"

definition field_names :: "jsstring list" where
  "field_names =
     [js ''name'', js ''email'', js ''subject'', js ''message'', js ''source'', js ''website'']"

text \<open>The template literal of the mail text, before \<^verbatim>\<open>.trim()\<close>.\<close>

definition text_template :: "submission \<Rightarrow> jsstring" where
  "text_template f =
     js ''\<newline>New contact form submission\<newline>\<newline>Name: '' @ name f
     @ js ''\<newline>Email: '' @ email f
     @ js ''\<newline>Subject: '' @ subject f
     @ js ''\<newline>Source: '' @ (if source f \<noteq> [] then source f else js ''form'')
     @ js ''\<newline>\<newline>Message:\<newline>'' @ message f"

definition replyTo_of :: "submission \<Rightarrow> jsstring" where
  "replyTo_of f = name f @ js '' <'' @ email f @ js ''>''"

definition subject_of :: "submission \<Rightarrow> jsstring" where
  "subject_of f = js ''[bmDub Contact] '' @ subject f"

text \<open>The argument of \<^verbatim>\<open>transporter.sendMail\<close> in src/server.js, lines 120 to 126.\<close>

definition mail_of :: "config \<Rightarrow> submission \<Rightarrow> mail" where
  "mail_of cfg f =
     \<lparr>mail_to = TO_EMAIL cfg, mail_from = FROM_EMAIL cfg,
      mail_replyTo = replyTo_of f, mail_subject = subject_of f,
      mail_text = trim (text_template f)\<rparr>"

text \<open>
  \<^verbatim>\<open>payload\<close> in src/unnamed/part_001, lines 171 to 177; its template literal ends
  with a line break before \<^verbatim>\<open>.trim()\<close>.
\<close>

definition payload_of :: "config \<Rightarrow> submission \<Rightarrow> mail" where
  "payload_of cfg f =
     \<lparr>mail_to = TO_EMAIL cfg, mail_from = FROM_EMAIL cfg,
      mail_replyTo = replyTo_of f, mail_subject = subject_of f,
      mail_text = trim (text_template f @ js ''\<newline>'')\<rparr>"

text \<open>src/server.js, lines 87 to 134.\<close>

definition contact :: "config \<Rightarrow> world \<Rightarrow> json option \<Rightarrow> response \<times> dispatch list" where
  "contact cfg w b =
     (case read_fields sanitize b of
        Inl err \<Rightarrow> (res_json 500 (error_body (error_text err)), [])
      | Inr f \<Rightarrow>
          if honeypot f \<noteq> [] then (res_json 200 ok_skip, [])
          else if name f = [] \<or> length (name f) < 2 then
            (res_json 400 (error_body (js ''Name is required and must be at least 2 characters.'')), [])
          else if \<not> isEmail (email f) then
            (res_json 400 (error_body (js ''Invalid email address.'')), [])
          else if subject f = [] \<or> length (subject f) < 2 then
            (res_json 400 (error_body (js ''Subject is required and must be at least 2 characters.'')), [])
          else if message f = [] \<or> length (message f) < 10 then
            (res_json 400 (error_body (js ''Message is required and must be at least 10 characters.'')), [])
          else
            (case sendMail w (mail_of cfg f) of
               Some err \<Rightarrow> (res_json 500 (error_body (error_text err)), [SendMail (mail_of cfg f)])
             | None \<Rightarrow> (res_json 200 ok_sent, [SendMail (mail_of cfg f)])))"

text \<open>
  \<^verbatim>\<open>sendViaBrevoAPI\<close> (src/unnamed/part_001, lines 86 to 107): the request it posts,
  and whether the call throws. \<open>decimal\<close> renders the status in the error message.
\<close>

function decimal :: "nat \<Rightarrow> jsstring" where
  "decimal n =
     (if n < 10 then [word_of_nat (48 + n)]
      else decimal (n div 10) @ [word_of_nat (48 + n mod 10)])"
  by pat_completeness auto
termination
  by (relation "measure id") auto

definition brevo_request_of :: "mail \<Rightarrow> brevo_request" where
  "brevo_request_of p =
     \<lparr>sender_email = extractEmail (mail_from p),
      to_email = extractEmail (mail_to p),
      replyTo_email = (if mail_replyTo p \<noteq> [] then Some (extractEmail (mail_replyTo p)) else None),
      brevo_subject = mail_subject p,
      textContent = mail_text p\<rparr>"

definition sendViaBrevoAPI :: "world \<Rightarrow> mail \<Rightarrow> js_error option" where
  "sendViaBrevoAPI w p =
     (case fetch w (brevo_request_of p) of
        FetchRejected err \<Rightarrow> Some err
      | FetchResponse st txt parsed \<Rightarrow>
          if \<not> (200 \<le> st \<and> st \<le> 299) then
            Some (JsError (js ''Error'')
              (js ''Brevo API '' @ decimal st @ js '': '' @ (case txt of None \<Rightarrow> [] | Some t \<Rightarrow> t)))
          else parsed)"

definition failed_to_send :: json where
  "failed_to_send = error_body (js ''Failed to send email. Please try again later.'')"

text \<open>
  src/unnamed/part_001, lines 133 to 196. With neither an API key nor a transporter
  (a state that startup excludes) \<^verbatim>\<open>transporter.sendMail\<close> throws on \<^verbatim>\<open>null\<close>.
\<close>

definition contact_api :: "config \<Rightarrow> world \<Rightarrow> json option \<Rightarrow> response \<times> dispatch list" where
  "contact_api cfg w b =
     (case read_fields sanitize_api b of
        Inl err \<Rightarrow> (res_json 500 failed_to_send, [])
      | Inr f \<Rightarrow>
          if honeypot f \<noteq> [] then (res_json 200 ok_skip, [])
          else if name f = [] \<or> length (name f) < 2 then
            (res_json 400 (error_body (js ''Name is required (min 2 chars).'')), [])
          else if \<not> isEmail (email f) then
            (res_json 400 (error_body (js ''Invalid email address.'')), [])
          else if subject f = [] \<or> length (subject f) < 2 then
            (res_json 400 (error_body (js ''Subject is required (min 2 chars).'')), [])
          else if message f = [] \<or> length (message f) < 10 then
            (res_json 400 (error_body (js ''Message is required (min 10 chars).'')), [])
          else
            (let payload = payload_of cfg f
             in if \<not> missing (BREVO_API_KEY cfg) then
                  (case sendViaBrevoAPI w payload of
                     Some err \<Rightarrow> (res_json 500 failed_to_send, [BrevoPost (brevo_request_of payload)])
                   | None \<Rightarrow> (res_json 200 ok_sent, [BrevoPost (brevo_request_of payload)]))
                else
                  (case transporter cfg of
                     None \<Rightarrow> (res_json 500 failed_to_send, [])
                   | Some t \<Rightarrow>
                       (case sendMail w payload of
                          Some err \<Rightarrow> (res_json 500 failed_to_send, [SendMail payload])
                        | None \<Rightarrow> (res_json 200 ok_sent, [SendMail payload])))))"

section \<open>The middleware chain\<close>

text \<open>
  The callback given to \<^verbatim>\<open>cors\<close>:
  \<^verbatim>\<open>if (!origin || origins.includes(origin)) cb(null, true); else cb(new Error('Not allowed by CORS'));\<close>
  where \<open>origin\<close> is \<^verbatim>\<open>req.headers.origin\<close>, \<open>None\<close> when the header is absent.
\<close>

definition cors_origin :: "jsstring list \<Rightarrow> jsstring option \<Rightarrow> js_error + bool" where
  "cors_origin allow origin =
     (case origin of
        None \<Rightarrow> Inr True
      | Some v \<Rightarrow>
          if v = [] \<or> v \<in> set allow then Inr True
          else Inl (JsError (js ''Error'') (js ''Not allowed by CORS'')))"

text \<open>The last \<^verbatim>\<open>app.use((err, _req, res, _next) => ...)\<close>, which receives every \<^verbatim>\<open>next(err)\<close>.\<close>

definition error_handler :: "js_error \<Rightarrow> response" where
  "error_handler err = res_json 500 (error_body (js ''Internal server error.''))"

text \<open>
  The options of \<^verbatim>\<open>rateLimit({windowMs: 60_000, max: 5, standardHeaders: true,
  legacyHeaders: false})\<close>, and the limiter's store: for an address, its count and the
  end of its window in milliseconds.
\<close>

definition windowMs :: nat where "windowMs = 60000"
definition max_hits :: nat where "max_hits = 5"

type_synonym hits_store = "jsstring \<Rightarrow> (nat \<times> nat) option"

text \<open>
  Modelled from the spec: the middleware that \<^verbatim>\<open>rateLimit\<close> returns, which belongs to
  the express-rate-limit package and is not under src/. Section 4.3 of the
  specification: a fixed window of 60 seconds and a cap of 5 requests for each
  originating address in a window; a request over the cap gets the too-many-requests
  response; limit, remaining and reset travel in the response headers. A request
  outside a running window opens one. The result is whether the request is over the
  cap, the header values and the new store.
\<close>

definition limiter :: "hits_store \<Rightarrow> nat \<Rightarrow> jsstring \<Rightarrow> bool \<times> ratelimit_info \<times> hits_store" where
  "limiter store now addr =
     (let (hits, ends) =
            (case store addr of
               None \<Rightarrow> (1, now + windowMs)
             | Some (h, e) \<Rightarrow> if now < e then (h + 1, e) else (1, now + windowMs))
      in (max_hits < hits,
          \<lparr>rl_limit = max_hits, rl_remaining = max_hits - hits,
           rl_reset = (ends - now + 999) div 1000\<rparr>,
          store(addr \<mapsto> (hits, ends))))"

definition too_many :: response where
  "too_many =
     \<lparr>status = 429, rate_headers = None,
      body = Plain (js ''Too many requests, please try again later.'')\<rparr>"

text \<open>
  A request as the chain sees it. \<open>target\<close> is what Express makes of the path:
  one of the four routes, a path below the mount point \<^verbatim>\<open>/contact\<close> that is not
  the route itself, or any other path. \<open>req_body\<close> is the outcome of
  \<^verbatim>\<open>express.json({ limit: '100kb' })\<close>: the parsed body (\<open>None\<close> without one), or
  the error it passes on.
\<close>

datatype http_method = GET | HEAD | POST | OPTIONS | OTHER

datatype target = Root | Health | DebugVerify | Contact | BelowContact | Elsewhere

record request =
  req_method :: http_method
  req_target :: target
  req_origin :: "jsstring option"
  req_ip :: jsstring
  req_body :: "js_error + json option"

definition not_found :: response where
  "not_found = \<lparr>status = 404, rate_headers = None, body = DefaultNotFound\<rparr>"

text \<open>The routes of src/server.js, lines 70 to 134 (\<^verbatim>\<open>app.get\<close> serves HEAD too).\<close>

definition routes :: "config \<Rightarrow> world \<Rightarrow> request \<Rightarrow> json option \<Rightarrow> response \<times> dispatch list" where
  "routes cfg w req b =
     (if req_method req \<in> {GET, HEAD} \<and> req_target req = Root then
        (res_json 200 (JObj [(js ''ok'', JBool True), (js ''service'', JStr (js ''bmDub API'')),
                             (js ''time'', JStr (now_iso w))]), [])
      else if req_method req \<in> {GET, HEAD} \<and> req_target req = Health then
        (res_json 200 (JObj [(js ''ok'', JBool True)]), [])
      else if req_method req \<in> {GET, HEAD} \<and> req_target req = DebugVerify then
        (case verify w of
           None \<Rightarrow> (res_json 200 (JObj [(js ''ok'', JBool True), (js ''message'', JStr (js ''SMTP ready''))]), [])
         | Some e \<Rightarrow> (res_json 500 (JObj [(js ''ok'', JBool False), (js ''error'', JStr (error_text e))]), []))
      else if req_method req = POST \<and> req_target req = Contact then contact cfg w b
      else (not_found, []))"

text \<open>The routes of src/unnamed/part_001, lines 110 to 196.\<close>

definition routes_api :: "config \<Rightarrow> world \<Rightarrow> request \<Rightarrow> json option \<Rightarrow> response \<times> dispatch list" where
  "routes_api cfg w req b =
     (if req_method req \<in> {GET, HEAD} \<and> req_target req = Root then
        (res_json 200 (JObj [(js ''ok'', JBool True), (js ''service'', JStr (js ''bmDub API'')),
                             (js ''time'', JStr (now_iso w))]), [])
      else if req_method req \<in> {GET, HEAD} \<and> req_target req = Health then
        (res_json 200 (JObj [(js ''ok'', JBool True)]), [])
      else if req_method req \<in> {GET, HEAD} \<and> req_target req = DebugVerify then
        (if \<not> missing (BREVO_API_KEY cfg) then
           (res_json 200 (JObj [(js ''ok'', JBool True), (js ''backend'', JStr (js ''brevo-api''))]), [])
         else
           (case transporter cfg of
              None \<Rightarrow> (res_json 500 (JObj [(js ''ok'', JBool False),
                         (js ''error'', JStr (js ''Cannot read properties of null (reading 'verify')''))]), [])
            | Some t \<Rightarrow>
                (case verify w of
                   None \<Rightarrow> (res_json 200 (JObj [(js ''ok'', JBool True), (js ''backend'', JStr (js ''smtp'')),
                                                (js ''result'', JBool True)]), [])
                 | Some e \<Rightarrow> (res_json 500 (JObj [(js ''ok'', JBool False), (js ''error'', JStr (error_text e))]), []))))
      else if req_method req = POST \<and> req_target req = Contact then contact_api cfg w b
      else (not_found, []))"

text \<open>
  The chain in the order of its \<^verbatim>\<open>app.use\<close> calls, the same in both files: the CORS
  middleware (an error of the callback goes to \<^verbatim>\<open>next(err)\<close>, and so to the error
  handler; a preflight is answered 204), the body parser, the limiter mounted on
  \<^verbatim>\<open>/contact\<close>, the routes. The result is the response, the calls of a mail backend
  and the limiter's store.
\<close>

definition chain ::
  "(config \<Rightarrow> world \<Rightarrow> request \<Rightarrow> json option \<Rightarrow> response \<times> dispatch list) \<Rightarrow>
   config \<Rightarrow> world \<Rightarrow> hits_store \<Rightarrow> nat \<Rightarrow> request \<Rightarrow> response \<times> dispatch list \<times> hits_store" where
  "chain rts cfg w store now req =
     (case cors_origin (allowList cfg) (req_origin req) of
        Inl err \<Rightarrow> (error_handler err, [], store)
      | Inr allowed \<Rightarrow>
          if req_method req = OPTIONS then
            (\<lparr>status = 204, rate_headers = None, body = NoContent\<rparr>, [], store)
          else
            (case req_body req of
               Inl err \<Rightarrow> (error_handler err, [], store)
             | Inr b \<Rightarrow>
                 if req_target req \<in> {Contact, BelowContact} then
                   (case limiter store now (req_ip req) of
                      (over, info, store') \<Rightarrow>
                        if over then (too_many\<lparr>rate_headers := Some info\<rparr>, [], store')
                        else (case rts cfg w req b of
                                (res, sent) \<Rightarrow> (res\<lparr>rate_headers := Some info\<rparr>, sent, store')))
                 else (case rts cfg w req b of (res, sent) \<Rightarrow> (res, sent, store))))"

definition app :: "config \<Rightarrow> world \<Rightarrow> hits_store \<Rightarrow> nat \<Rightarrow> request \<Rightarrow> response \<times> dispatch list \<times> hits_store" where
  "app = chain routes"

definition app_api :: "config \<Rightarrow> world \<Rightarrow> hits_store \<Rightarrow> nat \<Rightarrow> request \<Rightarrow> response \<times> dispatch list \<times> hits_store" where
  "app_api = chain routes_api"

text \<open>The requests that the chain hands to the limiter.\<close>

definition reaches_limiter :: "config \<Rightarrow> request \<Rightarrow> bool" where
  "reaches_limiter cfg req \<longleftrightarrow>
     cors_origin (allowList cfg) (req_origin req) = Inr True
     \<and> req_method req \<noteq> OPTIONS
     \<and> (case req_body req of Inl err \<Rightarrow> False | Inr b \<Rightarrow> True)
     \<and> req_target req \<in> {Contact, BelowContact}"

text \<open>The requests of a run that the limiter counts for the address \<open>a\<close>.\<close>

definition counted :: "config \<Rightarrow> jsstring \<Rightarrow> nat \<times> world \<times> request \<Rightarrow> bool" where
  "counted cfg a x \<longleftrightarrow> reaches_limiter cfg (snd (snd x)) \<and> req_ip (snd (snd x)) = a"

text \<open>
  A run of the server over requests, each with its arrival time and the world it meets:
  the responses, in order. The process as a whole exits at startup or serves.
\<close>

fun serve ::
  "(world \<Rightarrow> hits_store \<Rightarrow> nat \<Rightarrow> request \<Rightarrow> response \<times> dispatch list \<times> hits_store) \<Rightarrow>
   hits_store \<Rightarrow> (nat \<times> world \<times> request) list \<Rightarrow> response list" where
  "serve h store [] = []"
| "serve h store ((now, w, req) # rest) =
     (case h w store now req of (res, sent, store') \<Rightarrow> res # serve h store' rest)"

definition process :: "process_env \<Rightarrow> (nat \<times> world \<times> request) list \<Rightarrow> nat + response list" where
  "process env reqs =
     (case startup env of
        Exited code \<Rightarrow> Inl code
      | Listening cfg \<Rightarrow> Inr (serve (app cfg) Map.empty reqs))"

definition process_api :: "process_env \<Rightarrow> (nat \<times> world \<times> request) list \<Rightarrow> nat + response list" where
  "process_api env reqs =
     (case startup_api env of
        Exited code \<Rightarrow> Inl code
      | Listening cfg \<Rightarrow> Inr (serve (app_api cfg) Map.empty reqs))"

section \<open>The specification's wording\<close>

text \<open>
  The shape \<^verbatim>\<open>local@domain.tld\<close> of section 4.1: three parts that are not empty around
  an \<^verbatim>\<open>@\<close> and a dot of the domain part, a single \<^verbatim>\<open>@\<close>, no whitespace.
\<close>

definition email_shape :: "jsstring \<Rightarrow> bool" where
  "email_shape v \<longleftrightarrow>
     (\<exists>l d t. v = l @ [at_sign] @ d @ [full_stop] @ t \<and> l \<noteq> [] \<and> d \<noteq> [] \<and> t \<noteq> [])
     \<and> count_list v at_sign = 1
     \<and> \<not> list_ex isWhiteSpace v"

text \<open>The four validation rules of section 4.1 in their order, and the first one a submission breaks.\<close>

datatype rule = NameRule | EmailRule | SubjectRule | MessageRule

fun breaks :: "submission \<Rightarrow> rule \<Rightarrow> bool" where
  "breaks f NameRule = (length (name f) < 2)"
| "breaks f EmailRule = (\<not> isEmail (email f))"
| "breaks f SubjectRule = (length (subject f) < 2)"
| "breaks f MessageRule = (length (message f) < 10)"

definition first_broken :: "submission \<Rightarrow> rule option" where
  "first_broken f = find (breaks f) [NameRule, EmailRule, SubjectRule, MessageRule]"

text \<open>The message of each rule in src/server.js and in src/unnamed/part_001.\<close>

fun rule_message :: "rule \<Rightarrow> jsstring" where
  "rule_message NameRule = js ''Name is required and must be at least 2 characters.''"
| "rule_message EmailRule = js ''Invalid email address.''"
| "rule_message SubjectRule = js ''Subject is required and must be at least 2 characters.''"
| "rule_message MessageRule = js ''Message is required and must be at least 10 characters.''"

fun rule_message_api :: "rule \<Rightarrow> jsstring" where
  "rule_message_api NameRule = js ''Name is required (min 2 chars).''"
| "rule_message_api EmailRule = js ''Invalid email address.''"
| "rule_message_api SubjectRule = js ''Subject is required (min 2 chars).''"
| "rule_message_api MessageRule = js ''Message is required (min 10 chars).''"

section \<open>Concrete requests\<close>

text \<open>A submission that fills only the honeypot, with spaces around the value.\<close>

definition bot_body :: "json option" where
  "bot_body = Some (JObj [(js ''website'', JStr (js '' http://spam.example ''))])"

text \<open>The body \<^verbatim>\<open>{"website": "x", "name": {"toString": 1}}\<close>.\<close>

definition hostile_body :: "json option" where
  "hostile_body = Some (JObj [(js ''website'', JStr (js ''x'')),
                              (js ''name'', JObj [(js ''toString'', JNum (js ''1''))])])"

text \<open>The valid submission of section 8 of the specification, its fields and its mail.\<close>

definition jane_body :: "json option" where
  "jane_body = Some (JObj [(js ''name'', JStr (js ''Jane Doe'')),
                           (js ''email'', JStr (js ''jane@example.com'')),
                           (js ''subject'', JStr (js ''Hello'')),
                           (js ''message'', JStr (js ''This is a test message.''))])"

definition jane :: submission where
  "jane = \<lparr>name = js ''Jane Doe'', email = js ''jane@example.com'', subject = js ''Hello'',
           message = js ''This is a test message.'', source = [], honeypot = []\<rparr>"

definition jane_mail :: "config \<Rightarrow> mail" where
  "jane_mail cfg =
     \<lparr>mail_to = TO_EMAIL cfg, mail_from = FROM_EMAIL cfg,
      mail_replyTo = js ''Jane Doe <jane@example.com>'',
      mail_subject = js ''[bmDub Contact] Hello'',
      mail_text = js ''New contact form submission\<newline>\<newline>Name: Jane Doe\<newline>Email: jane@example.com\<newline>Subject: Hello\<newline>Source: form\<newline>\<newline>Message:\<newline>This is a test message.''\<rparr>"

text \<open>A configuration with SMTP only, one with an API key, and two worlds.\<close>

definition smtp_config :: config where
  "smtp_config =
     \<lparr>BREVO_API_KEY = None,
      TO_EMAIL = js ''cmwingo@email.sc.edu'',
      FROM_EMAIL = js ''bmDub Contact <no-reply@bmdub.app>'',
      allowList = parse_origins default_origins,
      transporter = Some \<lparr>smtp_host = js ''smtp.example.com'', smtp_port = js ''587'',
                           smtp_user = js ''user'', smtp_pass = js ''secret''\<rparr>\<rparr>"

definition api_config :: config where
  "api_config =
     \<lparr>BREVO_API_KEY = Some (js ''key''),
      TO_EMAIL = js ''cmwingo@email.sc.edu'',
      FROM_EMAIL = js ''bmDub Contact <cwingo64@gmail.com>'',
      allowList = parse_origins default_origins_api,
      transporter = None\<rparr>"

definition delivering :: world where
  "delivering =
     \<lparr>sendMail = (\<lambda>m. None),
      fetch = (\<lambda>r. FetchResponse 201 (Some (js ''{}'')) None),
      verify = None,
      now_iso = js ''2025-01-01T00:00:00.000Z''\<rparr>"

definition refusing :: world where
  "refusing =
     \<lparr>sendMail = (\<lambda>m. Some (JsError (js ''Error'') (js ''connect ECONNREFUSED''))),
      fetch = (\<lambda>r. FetchResponse 401 (Some (js ''unauthorized'')) None),
      verify = Some (JsError (js ''Error'') (js ''connect ECONNREFUSED'')),
      now_iso = js ''2025-01-01T00:00:00.000Z''\<rparr>"

text \<open>
  A body without fields; one that breaks the email, subject and message rules, with a
  name that is long enough once trimmed; and one whose name is too short once trimmed,
  with a honeypot of white space.
\<close>

definition empty_body :: "json option" where
  "empty_body = Some (JObj [])"

definition faulty_body :: "json option" where
  "faulty_body = Some (JObj [(js ''name'', JStr (js '' Al '')),
                             (js ''email'', JStr (js ''not an address'')),
                             (js ''subject'', JStr (js ''x'')),
                             (js ''message'', JStr (js ''short''))])"

definition padded_body :: "json option" where
  "padded_body = Some (JObj [(js ''name'', JStr (js ''  a  '')),
                             (js ''email'', JStr (js ''a@b.co'')),
                             (js ''subject'', JStr (js ''Hello'')),
                             (js ''message'', JStr (js ''This is a test message.'')),
                             (js ''website'', JStr (js ''   ''))])"

text \<open>The valid submission with the name \<^verbatim>\<open>Jane <3\<close>.\<close>

definition heart_body :: "json option" where
  "heart_body = Some (JObj [(js ''name'', JStr (js ''Jane <3'')),
                            (js ''email'', JStr (js ''jane@example.com'')),
                            (js ''subject'', JStr (js ''Hello'')),
                            (js ''message'', JStr (js ''This is a test message.''))])"

definition heart :: submission where
  "heart = \<lparr>name = js ''Jane <3'', email = js ''jane@example.com'', subject = js ''Hello'',
            message = js ''This is a test message.'', source = [], honeypot = []\<rparr>"

text \<open>Four environments: nothing set, only an API key, only the SMTP settings, both.\<close>

definition bare_env :: process_env where
  "bare_env =
     \<lparr>env_BREVO_API_KEY = None, env_SMTP_HOST = None, env_SMTP_PORT = None, env_SMTP_USER = None,
      env_SMTP_PASS = None, env_TO_EMAIL = None, env_FROM_EMAIL = None, env_CORS_ORIGINS = None\<rparr>"

definition key_env :: process_env where
  "key_env = bare_env\<lparr>env_BREVO_API_KEY := Some (js ''key'')\<rparr>"

definition smtp_env :: process_env where
  "smtp_env = bare_env\<lparr>env_SMTP_HOST := Some (js ''smtp.example.com''),
                        env_SMTP_USER := Some (js ''user''), env_SMTP_PASS := Some (js ''secret'')\<rparr>"

definition both_env :: process_env where
  "both_env = smtp_env\<lparr>env_BREVO_API_KEY := Some (js ''key'')\<rparr>"

text \<open>
  The valid submission posted to \<^verbatim>\<open>/contact\<close> from an origin outside the allow-list,
  from an origin that differs from an entry in the case of its letters only, and from
  an origin of the list; the empty store of the limiter.
\<close>

definition post_from :: "jsstring option \<Rightarrow> request" where
  "post_from origin =
     \<lparr>req_method = POST, req_target = Contact, req_origin = origin,
      req_ip = js ''203.0.113.9'', req_body = Inr jane_body\<rparr>"

definition evil_request :: request where
  "evil_request = post_from (Some (js ''https://evil.example''))"

definition shouting_request :: request where
  "shouting_request = post_from (Some (js ''https://CWINGO.github.io''))"

definition friendly_request :: request where
  "friendly_request = post_from (Some (js ''https://cwingo.github.io''))"

definition no_hits :: hits_store where
  "no_hits = Map.empty"

text \<open>
  Six posts of the valid submission from one address within a minute; a store in which
  that address has used up a window that ends at 60000; a request for \<^verbatim>\<open>/health\<close>.
\<close>

definition burst :: "(nat \<times> world \<times> request) list" where
  "burst =
     [(0, delivering, friendly_request), (1000, delivering, friendly_request),
      (2000, delivering, friendly_request), (3000, delivering, friendly_request),
      (4000, delivering, friendly_request), (59999, delivering, friendly_request)]"

definition crowded :: hits_store where
  "crowded = no_hits(js ''203.0.113.9'' \<mapsto> (6, 60000))"

definition health_request :: request where
  "health_request =
     \<lparr>req_method = GET, req_target = Health, req_origin = None,
      req_ip = js ''203.0.113.9'', req_body = Inr None\<rparr>"

text \<open>
  A post from the same address whose body the parser refuses; six of them within a
  minute; five of them and then the valid submission; and posts of the valid
  submission with a refused post and a request for \<^verbatim>\<open>/health\<close> in between.
\<close>

definition broken_request :: request where
  "broken_request =
     \<lparr>req_method = POST, req_target = Contact, req_origin = Some (js ''https://cwingo.github.io''),
      req_ip = js ''203.0.113.9'',
      req_body = Inl (JsError (js ''SyntaxError'') (js ''Unexpected end of JSON input''))\<rparr>"

definition broken_burst :: "(nat \<times> world \<times> request) list" where
  "broken_burst =
     [(0, delivering, broken_request), (1000, delivering, broken_request),
      (2000, delivering, broken_request), (3000, delivering, broken_request),
      (4000, delivering, broken_request), (59999, delivering, broken_request)]"

definition mixed_burst :: "(nat \<times> world \<times> request) list" where
  "mixed_burst =
     [(0, delivering, broken_request), (1000, delivering, broken_request),
      (2000, delivering, broken_request), (3000, delivering, broken_request),
      (4000, delivering, broken_request), (59999, delivering, friendly_request)]"

definition interleaved_burst :: "(nat \<times> world \<times> request) list" where
  "interleaved_burst =
     [(500, delivering, broken_request), (1000, delivering, friendly_request),
      (1500, delivering, health_request), (2000, delivering, friendly_request),
      (3000, delivering, friendly_request), (4000, delivering, friendly_request),
      (59999, delivering, friendly_request)]"

section \<open>The matcher computes the language\<close>

lemma conc_Nil: "[] \<in> conc A B \<longleftrightarrow> [] \<in> A \<and> [] \<in> B"
  by (auto simp: conc_def)

lemma nullable_lang: "nullable r \<longleftrightarrow> [] \<in> lang r"
  by (induction r) (auto simp: conc_Nil intro: star.star_empty)

lemma in_conc: "w \<in> conc A B \<longleftrightarrow> (\<exists>u v. w = u @ v \<and> u \<in> A \<and> v \<in> B)"
  by (auto simp: conc_def)

lemma conc_Cons:
  "c # s \<in> conc A B \<longleftrightarrow>
     ([] \<in> A \<and> c # s \<in> B) \<or> (\<exists>u v. s = u @ v \<and> c # u \<in> A \<and> v \<in> B)"
proof
  assume "c # s \<in> conc A B"
  then obtain u v where uv: "c # s = u @ v" "u \<in> A" "v \<in> B"
    by (auto simp: in_conc)
  show "([] \<in> A \<and> c # s \<in> B) \<or> (\<exists>u v. s = u @ v \<and> c # u \<in> A \<and> v \<in> B)"
  proof (cases u)
    case Nil
    with uv show ?thesis by simp
  next
    case (Cons a u')
    with uv have "s = u' @ v" "c # u' \<in> A" by simp_all
    with uv show ?thesis by blast
  qed
next
  assume "([] \<in> A \<and> c # s \<in> B) \<or> (\<exists>u v. s = u @ v \<and> c # u \<in> A \<and> v \<in> B)"
  then show "c # s \<in> conc A B"
  proof
    assume "[] \<in> A \<and> c # s \<in> B"
    then have "c # s = [] @ (c # s) \<and> [] \<in> A \<and> c # s \<in> B" by simp
    then show ?thesis unfolding in_conc by blast
  next
    assume "\<exists>u v. s = u @ v \<and> c # u \<in> A \<and> v \<in> B"
    then obtain u v where "s = u @ v" "c # u \<in> A" "v \<in> B" by blast
    then have "c # s = (c # u) @ v \<and> c # u \<in> A \<and> v \<in> B" by simp
    then show ?thesis unfolding in_conc by blast
  qed
qed

lemma star_Cons_D: "w \<in> star A \<Longrightarrow> w = c # s \<Longrightarrow> \<exists>u v. s = u @ v \<and> c # u \<in> A \<and> v \<in> star A"
proof (induction arbitrary: s rule: star.induct)
  case star_empty
  then show ?case by simp
next
  case (star_step u v)
  show ?case
  proof (cases u)
    case Nil
    with star_step show ?thesis by simp
  next
    case (Cons a u')
    with star_step.prems have "a = c" "s = u' @ v" by simp_all
    with Cons star_step.hyps show ?thesis by blast
  qed
qed

lemma star_Cons: "c # s \<in> star A \<longleftrightarrow> (\<exists>u v. s = u @ v \<and> c # u \<in> A \<and> v \<in> star A)"
proof
  assume "c # s \<in> star A"
  then show "\<exists>u v. s = u @ v \<and> c # u \<in> A \<and> v \<in> star A" by (rule star_Cons_D) simp
next
  assume "\<exists>u v. s = u @ v \<and> c # u \<in> A \<and> v \<in> star A"
  then obtain u v where "s = u @ v" "c # u \<in> A" "v \<in> star A" by blast
  then show "c # s \<in> star A" using star.star_step [of "c # u" A v] by simp
qed

lemma lang_deriv: "s \<in> lang (deriv c r) \<longleftrightarrow> c # s \<in> lang r"
proof (induction r arbitrary: s)
  case (Cat r1 r2)
  have "s \<in> conc (lang (deriv c r1)) (lang r2) \<longleftrightarrow>
      (\<exists>u v. s = u @ v \<and> c # u \<in> lang r1 \<and> v \<in> lang r2)"
    by (simp add: in_conc Cat.IH)
  then show ?case by (auto simp: conc_Cons nullable_lang Cat.IH)
next
  case (Rep r)
  have "s \<in> conc (lang (deriv c r)) (star (lang r)) \<longleftrightarrow>
      (\<exists>u v. s = u @ v \<and> c # u \<in> lang r \<and> v \<in> star (lang r))"
    by (simp add: in_conc Rep.IH)
  then show ?case by (simp add: star_Cons)
qed auto

lemma matches_lang: "matches r s \<longleftrightarrow> s \<in> lang r"
  by (induction s arbitrary: r) (simp_all add: nullable_lang lang_deriv)

lemma star_Class: "star {[c] | c. p c} = {s. \<forall>c\<in>set s. p c}"
proof (intro set_eqI iffI)
  fix s assume "s \<in> star {[c] | c. p c}"
  then show "s \<in> {s. \<forall>c\<in>set s. p c}"
    by (induction rule: star.induct) auto
next
  fix s assume "s \<in> {s. \<forall>c\<in>set s. p c}"
  then have "\<forall>c\<in>set s. p c" by simp
  then show "s \<in> star {[c] | c. p c}"
  proof (induction s)
    case Nil
    show ?case by (rule star.star_empty)
  next
    case (Cons a s)
    then have "[a] \<in> {[c] | c. p c}" "s \<in> star {[c] | c. p c}" by simp_all
    then have "[a] @ s \<in> star {[c] | c. p c}" by (rule star.star_step)
    then show ?case by simp
  qed
qed

lemma lang_Rep1_Class: "lang (Rep1 (Class p)) = {s. s \<noteq> [] \<and> (\<forall>c\<in>set s. p c)}"
proof -
  have "conc {[c] | c. p c} {s. \<forall>c\<in>set s. p c} = {s. s \<noteq> [] \<and> (\<forall>c\<in>set s. p c)}"
  proof (intro set_eqI iffI)
    fix s assume "s \<in> conc {[c] | c. p c} {s. \<forall>c\<in>set s. p c}"
    then show "s \<in> {s. s \<noteq> [] \<and> (\<forall>c\<in>set s. p c)}" by (auto simp: in_conc)
  next
    fix s assume "s \<in> {s. s \<noteq> [] \<and> (\<forall>c\<in>set s. p c)}"
    then obtain a s' where "s = [a] @ s'" "p a" "\<forall>c\<in>set s'. p c" by (cases s) auto
    then show "s \<in> conc {[c] | c. p c} {s. \<forall>c\<in>set s. p c}" unfolding in_conc by blast
  qed
  then show ?thesis by (simp add: Rep1_def star_Class)
qed

lemma lang_Class_eq: "lang (Class (\<lambda>c. c = a)) = {[a]}"
  by auto

lemma lang_email_rx:
  "v \<in> lang email_rx \<longleftrightarrow>
     (\<exists>l d t. v = l @ [at_sign] @ d @ [full_stop] @ t
        \<and> l \<noteq> [] \<and> (\<forall>c\<in>set l. not_space_at c)
        \<and> d \<noteq> [] \<and> (\<forall>c\<in>set d. not_space_at c)
        \<and> t \<noteq> [] \<and> (\<forall>c\<in>set t. not_space_at c))"
  unfolding email_rx_def lang.simps(5) lang_Rep1_Class lang_Class_eq in_conc
  by (simp; blast)

lemma specials_not_space: "\<not> isWhiteSpace at_sign" "\<not> isWhiteSpace full_stop" "full_stop \<noteq> at_sign"
  by (simp_all add: isWhiteSpace_def at_sign_def full_stop_def)

lemma count_at_0: "count_list s at_sign = 0 \<longleftrightarrow> at_sign \<notin> set s"
  by (induction s) auto

lemma isEmail_shape: "isEmail v \<longleftrightarrow> email_shape v"
proof
  assume "isEmail v"
  then obtain l d t where v: "v = l @ [at_sign] @ d @ [full_stop] @ t"
    and ne: "l \<noteq> []" "d \<noteq> []" "t \<noteq> []"
    and cl: "\<forall>c\<in>set l. not_space_at c" "\<forall>c\<in>set d. not_space_at c" "\<forall>c\<in>set t. not_space_at c"
    unfolding isEmail_def matches_lang lang_email_rx by blast
  from cl have "at_sign \<notin> set l" "at_sign \<notin> set d" "at_sign \<notin> set t"
    by (auto simp: not_space_at_def)
  then have "count_list v at_sign = 1"
    using specials_not_space(3) by (simp add: v count_at_0)
  moreover from cl have "\<not> list_ex isWhiteSpace v"
    using specials_not_space(1,2) by (auto simp: v list_ex_iff not_space_at_def)
  ultimately show "email_shape v"
    unfolding email_shape_def using v ne by blast
next
  assume "email_shape v"
  then obtain l d t where v: "v = l @ [at_sign] @ d @ [full_stop] @ t"
    and ne: "l \<noteq> []" "d \<noteq> []" "t \<noteq> []"
    and one: "count_list v at_sign = 1" and ws: "\<not> list_ex isWhiteSpace v"
    unfolding email_shape_def by blast
  from one have "count_list l at_sign = 0 \<and> count_list d at_sign = 0 \<and> count_list t at_sign = 0"
    using specials_not_space(3) by (simp add: v)
  then have "at_sign \<notin> set l" "at_sign \<notin> set d" "at_sign \<notin> set t"
    by (simp_all add: count_at_0)
  with ws have "\<forall>c\<in>set l. not_space_at c" "\<forall>c\<in>set d. not_space_at c" "\<forall>c\<in>set t. not_space_at c"
    by (auto simp: v list_ex_iff not_space_at_def)
  with v ne show "isEmail v"
    unfolding isEmail_def matches_lang lang_email_rx by blast
qed

section \<open>The handler after the sanitizer\<close>

text \<open>
  Once the six fields are read, the handler is a chain of tests on them. (On a string,
  \<^verbatim>\<open>!name || name.length < 2\<close> is \<^verbatim>\<open>name.length < 2\<close>.)
\<close>

lemma contact_fields:
  "read_fields sanitize b = Inr f \<Longrightarrow>
   contact cfg w b =
     (if honeypot f \<noteq> [] then (res_json 200 ok_skip, [])
      else if length (name f) < 2 then (res_json 400 (error_body (rule_message NameRule)), [])
      else if \<not> isEmail (email f) then (res_json 400 (error_body (rule_message EmailRule)), [])
      else if length (subject f) < 2 then (res_json 400 (error_body (rule_message SubjectRule)), [])
      else if length (message f) < 10 then (res_json 400 (error_body (rule_message MessageRule)), [])
      else (case sendMail w (mail_of cfg f) of
              Some err \<Rightarrow> (res_json 500 (error_body (error_text err)), [SendMail (mail_of cfg f)])
            | None \<Rightarrow> (res_json 200 ok_sent, [SendMail (mail_of cfg f)])))"
  by (auto simp: contact_def)

lemma contact_api_fields:
  "read_fields sanitize_api b = Inr f \<Longrightarrow>
   contact_api cfg w b =
     (if honeypot f \<noteq> [] then (res_json 200 ok_skip, [])
      else if length (name f) < 2 then (res_json 400 (error_body (rule_message_api NameRule)), [])
      else if \<not> isEmail (email f) then (res_json 400 (error_body (rule_message_api EmailRule)), [])
      else if length (subject f) < 2 then (res_json 400 (error_body (rule_message_api SubjectRule)), [])
      else if length (message f) < 10 then (res_json 400 (error_body (rule_message_api MessageRule)), [])
      else if \<not> missing (BREVO_API_KEY cfg) then
        (case sendViaBrevoAPI w (payload_of cfg f) of
           Some err \<Rightarrow> (res_json 500 failed_to_send, [BrevoPost (brevo_request_of (payload_of cfg f))])
         | None \<Rightarrow> (res_json 200 ok_sent, [BrevoPost (brevo_request_of (payload_of cfg f))]))
      else
        (case transporter cfg of
           None \<Rightarrow> (res_json 500 failed_to_send, [])
         | Some t \<Rightarrow>
             (case sendMail w (payload_of cfg f) of
                Some err \<Rightarrow> (res_json 500 failed_to_send, [SendMail (payload_of cfg f)])
              | None \<Rightarrow> (res_json 200 ok_sent, [SendMail (payload_of cfg f)]))))"
  by (auto simp: contact_api_def Let_def)

section \<open>C1: the honeypot\<close>

text \<open>
  The sanitizer throws exactly on a value that \<open>throws\<close>: an object with an own
  property \<^verbatim>\<open>toString\<close>, or an array that holds such a value. The six fields are read
  exactly when none of them is such a value.
\<close>

lemma all_or_first_error_Inl:
  "(\<exists>e. all_or_first_error rs = Inl e) \<longleftrightarrow> (\<exists>r\<in>set rs. \<exists>e. r = Inl e)"
proof (induction rs)
  case Nil
  show ?case by simp
next
  case (Cons r rs)
  show ?case
  proof (cases r)
    case (Inl e)
    then show ?thesis by auto
  next
    case (Inr x)
    with Cons show ?thesis by (auto split: sum.splits)
  qed
qed

lemma ToString_throws: "(\<exists>e. ToString v = Inl e) \<longleftrightarrow> throws v"
proof (induction v)
  case (JArr xs)
  have "(\<exists>e. ToString (JArr xs) = Inl e) \<longleftrightarrow>
      (\<exists>e. all_or_first_error (map (\<lambda>x. if x = JNull then Inr [] else ToString x) xs) = Inl e)"
    by (auto split: sum.splits)
  also have "\<dots> \<longleftrightarrow> (\<exists>x\<in>set xs. \<exists>e. (if x = JNull then Inr [] else ToString x) = Inl e)"
    by (simp only: all_or_first_error_Inl set_map bex_simps(7))
  also have "\<dots> \<longleftrightarrow> (\<exists>x\<in>set xs. throws x)"
  proof -
    have "(\<exists>e. (if x = JNull then Inr [] else ToString x) = Inl e) \<longleftrightarrow> throws x"
      if "x \<in> set xs" for x
      using JArr [OF that] by (cases "x = JNull") auto
    then show ?thesis by blast
  qed
  finally show ?case by simp
qed auto

lemma sanitize_throws:
  "(\<exists>e. sanitize s = Inl e) \<longleftrightarrow> (\<exists>v. s = Some v \<and> throws v)"
  "(\<exists>e. sanitize_api s = Inl e) \<longleftrightarrow> (\<exists>v. s = Some v \<and> throws v)"
proof -
  have t: "throws v \<Longrightarrow> truthy v \<and> v \<noteq> JNull" for v by (cases v) auto
  have a: "(\<exists>e. ToString (or_else s (JStr [])) = Inl e) \<longleftrightarrow> (\<exists>v. s = Some v \<and> throws v)"
    unfolding ToString_throws using t by (cases s) auto
  have "nullish_else s (JStr []) = (case s of None \<Rightarrow> JStr [] | Some v \<Rightarrow> if v = JNull then JStr [] else v)"
    by (cases "(s, JStr [])" rule: nullish_else.cases) auto
  then have b: "(\<exists>e. ToString (nullish_else s (JStr [])) = Inl e) \<longleftrightarrow> (\<exists>v. s = Some v \<and> throws v)"
    unfolding ToString_throws using t by (cases s) auto
  show "(\<exists>e. sanitize s = Inl e) \<longleftrightarrow> (\<exists>v. s = Some v \<and> throws v)"
    using a by (auto simp: sanitize_def split: sum.splits)
  show "(\<exists>e. sanitize_api s = Inl e) \<longleftrightarrow> (\<exists>v. s = Some v \<and> throws v)"
    using b by (auto simp: sanitize_api_def split: sum.splits)
qed

lemma read_fields_returns:
  assumes "\<And>s. (\<exists>e. san s = Inl e) \<longleftrightarrow> (\<exists>v. s = Some v \<and> throws v)"
  shows "(\<exists>f. read_fields san b = Inr f) \<longleftrightarrow>
     (\<forall>k\<in>set field_names. \<forall>v. field b k = Some v \<longrightarrow> \<not> throws v)"
proof -
  have ok: "(\<exists>x. san s = Inr x) \<longleftrightarrow> (\<forall>v. s = Some v \<longrightarrow> \<not> throws v)" for s
    using assms [of s] by (cases "san s") auto
  have "(\<exists>f. read_fields san b = Inr f) \<longleftrightarrow>
      (\<exists>n. san (field b (js ''name'')) = Inr n) \<and> (\<exists>n. san (field b (js ''email'')) = Inr n)
      \<and> (\<exists>n. san (field b (js ''subject'')) = Inr n) \<and> (\<exists>n. san (field b (js ''message'')) = Inr n)
      \<and> (\<exists>n. san (field b (js ''source'')) = Inr n) \<and> (\<exists>n. san (field b (js ''website'')) = Inr n)"
    by (auto simp: read_fields_def split: sum.splits)
  then show ?thesis unfolding ok by (simp add: field_names_def)
qed

text \<open>
  C1 (as amended). Whenever the sanitizer returns for the six fields and the sanitized
  \<^verbatim>\<open>website\<close> is not empty, the handler of either variant answers 200 with
  \<^verbatim>\<open>{ok: true, skip: true}\<close> and calls no mail backend, whatever the other fields hold:
  the honeypot test stands before the four validation rules. The sanitizer returns for
  the six fields exactly when none of them is a value on which \<^verbatim>\<open>String\<close> throws.
\<close>

theorem honeypot_short_circuit:
  "(read_fields sanitize b = Inr f \<and> honeypot f \<noteq> [] \<longrightarrow>
      contact cfg w b = (res_json 200 ok_skip, []))
   \<and> (read_fields sanitize_api b = Inr g \<and> honeypot g \<noteq> [] \<longrightarrow>
      contact_api cfg w b = (res_json 200 ok_skip, []))
   \<and> ((\<exists>f. read_fields sanitize b = Inr f) \<longleftrightarrow>
        (\<forall>k\<in>set field_names. \<forall>v. field b k = Some v \<longrightarrow> \<not> throws v))
   \<and> ((\<exists>g. read_fields sanitize_api b = Inr g) \<longleftrightarrow>
        (\<forall>k\<in>set field_names. \<forall>v. field b k = Some v \<longrightarrow> \<not> throws v))"
  using read_fields_returns [of sanitize b, OF sanitize_throws(1)]
    read_fields_returns [of sanitize_api b, OF sanitize_throws(2)]
  by (simp add: contact_fields contact_api_fields)

lemma bot_fields:
  "read_fields sanitize bot_body =
     Inr \<lparr>name = [], email = [], subject = [], message = [], source = [],
          honeypot = js ''http://spam.example''\<rparr>"
  by (simp add: read_fields_def sanitize_def bot_body_def js_def trim_def isWhiteSpace_def)

lemma bot_fields_api:
  "read_fields sanitize_api bot_body =
     Inr \<lparr>name = [], email = [], subject = [], message = [], source = [],
          honeypot = js ''http://spam.example''\<rparr>"
  by (simp add: read_fields_def sanitize_api_def bot_body_def js_def trim_def isWhiteSpace_def)

text \<open>
  An instance: only the honeypot is filled, so each of the four rules would fail.
\<close>

theorem honeypot_short_circuit_witness:
  "\<forall>cfg w. contact cfg w bot_body = (res_json 200 ok_skip, [])
     \<and> contact_api cfg w bot_body = (res_json 200 ok_skip, [])"
proof (intro allI)
  fix cfg w
  let ?f = "\<lparr>name = [], email = [], subject = [], message = [], source = [],
          honeypot = js ''http://spam.example''\<rparr>"
  have "honeypot ?f \<noteq> []" by (simp add: js_def)
  then show "contact cfg w bot_body = (res_json 200 ok_skip, [])
     \<and> contact_api cfg w bot_body = (res_json 200 ok_skip, [])"
    using honeypot_short_circuit [where b = bot_body and f = ?f and g = ?f and cfg = cfg and w = w]
      bot_fields bot_fields_api by simp
qed

text \<open>
  C1 as stated fails: the six fields are sanitized before the honeypot is tested, and
  \<^verbatim>\<open>String\<close> throws on the \<^verbatim>\<open>name\<close> of \<open>hostile_body\<close>. The honeypot
  is filled, yet the answer is the 500 of the \<^verbatim>\<open>catch\<close> block.
\<close>

theorem honeypot_counterexample:
  "sanitize (field hostile_body (js ''website'')) = Inr (js ''x'')
   \<and> sanitize_api (field hostile_body (js ''website'')) = Inr (js ''x'')
   \<and> contact smtp_config delivering hostile_body =
       (res_json 500 (error_body (js ''Cannot convert object to primitive value'')), [])
   \<and> contact_api api_config delivering hostile_body = (res_json 500 failed_to_send, [])
   \<and> status (fst (contact smtp_config delivering hostile_body)) = 500
   \<and> status (fst (contact_api api_config delivering hostile_body)) = 500"
  by (simp add: contact_def res_json_def contact_api_def read_fields_def sanitize_def sanitize_api_def
      hostile_body_def js_def trim_def isWhiteSpace_def TypeError_toPrimitive_def error_text_def)

section \<open>C2: the valid submission\<close>

text \<open>The sanitized fields of the valid submission, its mail, and what the handlers do with it.\<close>

lemma jane_fields: "read_fields sanitize jane_body = Inr jane"
  by (simp add: read_fields_def sanitize_def jane_body_def jane_def js_def trim_def isWhiteSpace_def)

lemma jane_fields_api: "read_fields sanitize_api jane_body = Inr jane"
  by (simp add: read_fields_def sanitize_api_def jane_body_def jane_def js_def trim_def isWhiteSpace_def)

lemma jane_mail_of: "mail_of cfg jane = jane_mail cfg"
  by (simp add: mail_of_def jane_mail_def jane_def replyTo_of_def subject_of_def text_template_def
      js_def trim_def isWhiteSpace_def)

lemma jane_payload_of: "payload_of cfg jane = jane_mail cfg"
  by (simp add: payload_of_def jane_mail_def jane_def replyTo_of_def subject_of_def text_template_def
      js_def trim_def isWhiteSpace_def)

lemma jane_valid: "honeypot jane = []" "\<not> length (name jane) < 2" "isEmail (email jane)"
  "\<not> length (subject jane) < 2" "\<not> length (message jane) < 10"
  by (simp_all add: jane_def js_def isEmail_def email_rx_def Rep1_def not_space_at_def
      isWhiteSpace_def at_sign_def full_stop_def)

lemma jane_contact:
  "contact cfg w jane_body =
     (case sendMail w (jane_mail cfg) of
        Some err \<Rightarrow> (res_json 500 (error_body (error_text err)), [SendMail (jane_mail cfg)])
      | None \<Rightarrow> (res_json 200 ok_sent, [SendMail (jane_mail cfg)]))"
  by (simp add: contact_fields [OF jane_fields] jane_valid jane_mail_of split: option.split)

lemma jane_contact_api:
  "contact_api cfg w jane_body =
     (if \<not> missing (BREVO_API_KEY cfg) then
        (case sendViaBrevoAPI w (jane_mail cfg) of
           Some err \<Rightarrow> (res_json 500 failed_to_send, [BrevoPost (brevo_request_of (jane_mail cfg))])
         | None \<Rightarrow> (res_json 200 ok_sent, [BrevoPost (brevo_request_of (jane_mail cfg))]))
      else
        (case transporter cfg of
           None \<Rightarrow> (res_json 500 failed_to_send, [])
         | Some t \<Rightarrow>
             (case sendMail w (jane_mail cfg) of
                Some err \<Rightarrow> (res_json 500 failed_to_send, [SendMail (jane_mail cfg)])
              | None \<Rightarrow> (res_json 200 ok_sent, [SendMail (jane_mail cfg)]))))"
  by (simp add: contact_api_fields [OF jane_fields_api] jane_valid jane_payload_of split: option.split)

text \<open>
  C2. For the submission with name "Jane Doe", email "jane@example.com", subject "Hello"
  and message "This is a test message." the handler calls a mail backend exactly once,
  whatever the backend answers: \<^verbatim>\<open>transporter.sendMail\<close> in src/server.js, and in the
  other variant the mail API with an API key, else the transporter. The message has
  replyTo "Jane Doe <jane@example.com>" and subject "[bmDub Contact] Hello", and when the
  call succeeds the response is 200 with \<^verbatim>\<open>{ok: true, message: "Email sent successfully."}\<close>.
\<close>

theorem jane_doe_is_mailed:
  "snd (contact cfg w jane_body) = [SendMail (jane_mail cfg)]
   \<and> (sendMail w (jane_mail cfg) = None \<longrightarrow> fst (contact cfg w jane_body) = res_json 200 ok_sent)
   \<and> (\<not> missing (BREVO_API_KEY cfg) \<longrightarrow>
        snd (contact_api cfg w jane_body) = [BrevoPost (brevo_request_of (jane_mail cfg))]
        \<and> (sendViaBrevoAPI w (jane_mail cfg) = None \<longrightarrow>
             fst (contact_api cfg w jane_body) = res_json 200 ok_sent))
   \<and> (missing (BREVO_API_KEY cfg) \<and> transporter cfg \<noteq> None \<longrightarrow>
        snd (contact_api cfg w jane_body) = [SendMail (jane_mail cfg)]
        \<and> (sendMail w (jane_mail cfg) = None \<longrightarrow>
             fst (contact_api cfg w jane_body) = res_json 200 ok_sent))
   \<and> mail_replyTo (jane_mail cfg) = js ''Jane Doe <jane@example.com>''
   \<and> mail_subject (jane_mail cfg) = js ''[bmDub Contact] Hello''
   \<and> res_json 200 ok_sent =
       \<lparr>status = 200, rate_headers = None,
        body = Json (JObj [(js ''ok'', JBool True),
                           (js ''message'', JStr (js ''Email sent successfully.''))])\<rparr>"
proof -
  have smtp: "snd (contact cfg w jane_body) = [SendMail (jane_mail cfg)]"
    by (simp add: jane_contact split: option.split)
  have smtp_ok: "sendMail w (jane_mail cfg) = None \<longrightarrow>
      fst (contact cfg w jane_body) = res_json 200 ok_sent"
    by (simp add: jane_contact)
  have api: "\<not> missing (BREVO_API_KEY cfg) \<longrightarrow>
        snd (contact_api cfg w jane_body) = [BrevoPost (brevo_request_of (jane_mail cfg))]
        \<and> (sendViaBrevoAPI w (jane_mail cfg) = None \<longrightarrow>
             fst (contact_api cfg w jane_body) = res_json 200 ok_sent)"
    by (simp add: jane_contact_api split: option.split)
  have fallback: "missing (BREVO_API_KEY cfg) \<and> transporter cfg \<noteq> None \<longrightarrow>
        snd (contact_api cfg w jane_body) = [SendMail (jane_mail cfg)]
        \<and> (sendMail w (jane_mail cfg) = None \<longrightarrow>
             fst (contact_api cfg w jane_body) = res_json 200 ok_sent)"
    by (auto simp: jane_contact_api split: option.split)
  have fields: "mail_replyTo (jane_mail cfg) = js ''Jane Doe <jane@example.com>''"
    "mail_subject (jane_mail cfg) = js ''[bmDub Contact] Hello''"
    by (simp_all add: jane_mail_def)
  have answer: "res_json 200 ok_sent =
       \<lparr>status = 200, rate_headers = None,
        body = Json (JObj [(js ''ok'', JBool True),
                           (js ''message'', JStr (js ''Email sent successfully.''))])\<rparr>"
    by (simp add: res_json_def ok_sent_def)
  from smtp smtp_ok api fallback fields answer show ?thesis by blast
qed

text \<open>An instance with each backend; the mail API is handed the bare addresses.\<close>

lemma extract_jane:
  "extractEmail (js ''Jane Doe <jane@example.com>'') = js ''jane@example.com''"
  "extractEmail (js ''bmDub Contact <cwingo64@gmail.com>'') = js ''cwingo64@gmail.com''"
  "extractEmail (js ''cmwingo@email.sc.edu'') = js ''cmwingo@email.sc.edu''"
  by (simp_all add: extractEmail_def js_def less_than_sign_def greater_than_sign_def)

theorem jane_doe_is_mailed_witness:
  "contact smtp_config delivering jane_body = (res_json 200 ok_sent, [SendMail (jane_mail smtp_config)])
   \<and> contact_api api_config delivering jane_body =
       (res_json 200 ok_sent,
        [BrevoPost \<lparr>sender_email = js ''cwingo64@gmail.com'', to_email = js ''cmwingo@email.sc.edu'',
                    replyTo_email = Some (js ''jane@example.com''),
                    brevo_subject = js ''[bmDub Contact] Hello'',
                    textContent = mail_text (jane_mail api_config)\<rparr>])"
proof -
  have a: "sendMail delivering (jane_mail smtp_config) = None"
    by (simp add: delivering_def)
  have b: "\<not> missing (BREVO_API_KEY api_config)"
    by (simp add: api_config_def js_def)
  have c: "sendViaBrevoAPI delivering (jane_mail api_config) = None"
    by (simp add: sendViaBrevoAPI_def delivering_def)
  have d: "brevo_request_of (jane_mail api_config) =
      \<lparr>sender_email = js ''cwingo64@gmail.com'', to_email = js ''cmwingo@email.sc.edu'',
                    replyTo_email = Some (js ''jane@example.com''),
                    brevo_subject = js ''[bmDub Contact] Hello'',
                    textContent = mail_text (jane_mail api_config)\<rparr>"
    by (simp add: brevo_request_of_def jane_mail_def api_config_def extract_jane) (simp add: js_def)
  from jane_doe_is_mailed [of smtp_config delivering] a
  have "contact smtp_config delivering jane_body =
      (res_json 200 ok_sent, [SendMail (jane_mail smtp_config)])"
    by (simp add: prod_eq_iff)
  moreover from jane_doe_is_mailed [of api_config delivering] b c d
  have "contact_api api_config delivering jane_body =
      (res_json 200 ok_sent, [BrevoPost (brevo_request_of (jane_mail api_config))])"
    by (simp add: prod_eq_iff)
  ultimately show ?thesis using d by simp
qed

section \<open>C3: the order of the validation rules\<close>

lemma first_broken_cases:
  "first_broken f =
     (if length (name f) < 2 then Some NameRule
      else if \<not> isEmail (email f) then Some EmailRule
      else if length (subject f) < 2 then Some SubjectRule
      else if length (message f) < 10 then Some MessageRule
      else None)"
  by (simp add: first_broken_def)

text \<open>
  C3 (as amended). For a submission whose fields the sanitizer returns, with an empty
  honeypot, that breaks at least one of the four rules, the handler applies the rules
  in the order name, email, subject, message and answers 400 with one error, the
  message of the first rule that is broken, and calls no mail backend. A name that is
  missing or shorter than 2 code units after trim gives the message "Name is required
  and must be at least 2 characters." in src/server.js and "Name is required (min 2
  chars)." in the variant with the mail API.
\<close>

theorem first_broken_rule_answers:
  "(read_fields sanitize b = Inr f \<and> honeypot f = [] \<and> first_broken f = Some r \<longrightarrow>
      contact cfg w b = (res_json 400 (error_body (rule_message r)), []))
   \<and> (read_fields sanitize_api b = Inr g \<and> honeypot g = [] \<and> first_broken g = Some q \<longrightarrow>
      contact_api cfg w b = (res_json 400 (error_body (rule_message_api q)), []))
   \<and> (read_fields sanitize b = Inr f \<and> honeypot f = [] \<and> length (name f) < 2 \<longrightarrow>
      contact cfg w b =
        (res_json 400 (error_body (js ''Name is required and must be at least 2 characters.'')), []))
   \<and> (read_fields sanitize_api b = Inr g \<and> honeypot g = [] \<and> length (name g) < 2 \<longrightarrow>
      contact_api cfg w b = (res_json 400 (error_body (js ''Name is required (min 2 chars).'')), []))"
proof -
  have a: "read_fields sanitize b = Inr f \<and> honeypot f = [] \<and> first_broken f = Some r \<longrightarrow>
      contact cfg w b = (res_json 400 (error_body (rule_message r)), [])"
    by (auto simp: contact_fields first_broken_cases split: if_splits)
  have b: "read_fields sanitize_api b = Inr g \<and> honeypot g = [] \<and> first_broken g = Some q \<longrightarrow>
      contact_api cfg w b = (res_json 400 (error_body (rule_message_api q)), [])"
    by (auto simp: contact_api_fields first_broken_cases split: if_splits)
  have c: "read_fields sanitize b = Inr f \<and> honeypot f = [] \<and> length (name f) < 2 \<longrightarrow>
      contact cfg w b =
        (res_json 400 (error_body (js ''Name is required and must be at least 2 characters.'')), [])"
    by (simp add: contact_fields)
  have d: "read_fields sanitize_api b = Inr g \<and> honeypot g = [] \<and> length (name g) < 2 \<longrightarrow>
      contact_api cfg w b = (res_json 400 (error_body (js ''Name is required (min 2 chars).'')), [])"
    by (simp add: contact_api_fields)
  from a b c d show ?thesis by blast
qed

text \<open>
  Instances: a body that breaks the email, subject and message rules gets the email
  message; a body without a name gets the name message of its variant.
\<close>

lemma empty_fields:
  "read_fields sanitize empty_body =
     Inr \<lparr>name = [], email = [], subject = [], message = [], source = [], honeypot = []\<rparr>"
  "read_fields sanitize_api empty_body =
     Inr \<lparr>name = [], email = [], subject = [], message = [], source = [], honeypot = []\<rparr>"
  by (simp_all add: read_fields_def sanitize_def sanitize_api_def empty_body_def trim_def)

lemma faulty_fields:
  "read_fields sanitize faulty_body =
     Inr \<lparr>name = js ''Al'', email = js ''not an address'', subject = js ''x'',
          message = js ''short'', source = [], honeypot = []\<rparr>"
  "read_fields sanitize_api faulty_body =
     Inr \<lparr>name = js ''Al'', email = js ''not an address'', subject = js ''x'',
          message = js ''short'', source = [], honeypot = []\<rparr>"
  by (simp_all add: read_fields_def sanitize_def sanitize_api_def faulty_body_def js_def trim_def
      isWhiteSpace_def)

lemma faulty_first_broken:
  "first_broken \<lparr>name = js ''Al'', email = js ''not an address'', subject = js ''x'',
          message = js ''short'', source = [], honeypot = []\<rparr> = Some EmailRule"
  by (simp add: first_broken_def js_def isEmail_def email_rx_def Rep1_def not_space_at_def
      isWhiteSpace_def at_sign_def full_stop_def)

theorem first_broken_rule_answers_witness:
  "contact smtp_config delivering faulty_body =
     (res_json 400 (error_body (js ''Invalid email address.'')), [])
   \<and> contact_api api_config delivering faulty_body =
     (res_json 400 (error_body (js ''Invalid email address.'')), [])
   \<and> contact smtp_config delivering empty_body =
     (res_json 400 (error_body (js ''Name is required and must be at least 2 characters.'')), [])
   \<and> contact_api api_config delivering empty_body =
     (res_json 400 (error_body (js ''Name is required (min 2 chars).'')), [])"
proof -
  let ?f = "\<lparr>name = js ''Al'', email = js ''not an address'', subject = js ''x'',
          message = js ''short'', source = [], honeypot = []\<rparr>"
  let ?e = "\<lparr>name = [], email = [], subject = [], message = [], source = [], honeypot = []\<rparr>"
  note faulty = first_broken_rule_answers
    [where b = faulty_body and f = ?f and r = EmailRule and g = ?f and q = EmailRule
       and w = delivering]
  note empty = first_broken_rule_answers
    [where b = empty_body and f = ?e and r = NameRule and g = ?e and q = NameRule
       and w = delivering]
  have "first_broken ?e = Some NameRule" by (simp add: first_broken_def)
  with faulty [of smtp_config] faulty [of api_config] empty [of smtp_config] empty [of api_config]
  show ?thesis
    by (simp add: faulty_fields empty_fields faulty_first_broken)
qed

text \<open>
  C3 as stated fails in the variant with the mail API (src/unnamed/part_001, line 147):
  a missing name is answered with another message than the one the claim gives.
\<close>

theorem name_message_counterexample:
  "field empty_body (js ''name'') = None
   \<and> contact_api api_config delivering empty_body =
       (res_json 400 (error_body (js ''Name is required (min 2 chars).'')), [])
   \<and> contact_api api_config delivering empty_body \<noteq>
       (res_json 400 (error_body (js ''Name is required and must be at least 2 characters.'')), [])"
  by (simp add: contact_api_fields [OF empty_fields(2)] res_json_def error_body_def)
     (simp add: empty_body_def js_def)

section \<open>C4: the email rule\<close>

lemma email_message_apart:
  "error_body (rule_message SubjectRule) \<noteq> error_body (rule_message EmailRule)"
  "error_body (rule_message MessageRule) \<noteq> error_body (rule_message EmailRule)"
  "error_body (rule_message_api SubjectRule) \<noteq> error_body (rule_message_api EmailRule)"
  "error_body (rule_message_api MessageRule) \<noteq> error_body (rule_message_api EmailRule)"
  by (simp_all add: error_body_def js_def)

lemma res_json_eq: "res_json s j = res_json s' j' \<longleftrightarrow> s = s' \<and> j = j'"
  by (auto simp: res_json_def)

lemma short_address: "isEmail (js ''a@b.co'')"
  by (simp add: isEmail_def email_rx_def Rep1_def js_def not_space_at_def isWhiteSpace_def
      at_sign_def full_stop_def)

text \<open>
  C4. For a submission that passes the honeypot and the name rule, the handler of
  either variant answers 400 with "Invalid email address." exactly when the sanitized
  email does not have the shape \<^verbatim>\<open>local@domain.tld\<close> (\<open>email_shape\<close>: parts that are
  not empty, a single \<^verbatim>\<open>@\<close>, a dot in the domain part, no white space); \<open>isEmail\<close>
  accepts a string exactly when it has the shape, and \<^verbatim>\<open>a@b.co\<close> has it.
\<close>

theorem email_rule_is_the_shape:
  "(read_fields sanitize b = Inr f \<and> honeypot f = [] \<and> 2 \<le> length (name f) \<longrightarrow>
      (contact cfg w b = (res_json 400 (error_body (js ''Invalid email address.'')), [])
         \<longleftrightarrow> \<not> email_shape (email f)))
   \<and> (read_fields sanitize_api b = Inr g \<and> honeypot g = [] \<and> 2 \<le> length (name g) \<longrightarrow>
      (contact_api cfg w b = (res_json 400 (error_body (js ''Invalid email address.'')), [])
         \<longleftrightarrow> \<not> email_shape (email g)))
   \<and> (isEmail v \<longleftrightarrow> email_shape v)
   \<and> email_shape (js ''a@b.co'')"
proof -
  have a: "read_fields sanitize b = Inr f \<and> honeypot f = [] \<and> 2 \<le> length (name f) \<longrightarrow>
      (contact cfg w b = (res_json 400 (error_body (js ''Invalid email address.'')), [])
         \<longleftrightarrow> \<not> email_shape (email f))"
    using email_message_apart(1,2)
    by (auto simp: contact_fields isEmail_shape res_json_eq split: option.split)
  have b: "read_fields sanitize_api b = Inr g \<and> honeypot g = [] \<and> 2 \<le> length (name g) \<longrightarrow>
      (contact_api cfg w b = (res_json 400 (error_body (js ''Invalid email address.'')), [])
         \<longleftrightarrow> \<not> email_shape (email g))"
    using email_message_apart(3,4)
    by (auto simp: contact_api_fields isEmail_shape res_json_eq split: option.split)
  have c: "email_shape (js ''a@b.co'')"
    using short_address by (simp add: isEmail_shape)
  from a b c show ?thesis by (simp add: isEmail_shape)
qed

text \<open>Instances: an email with spaces and no \<^verbatim>\<open>@\<close> is refused, the one of the valid submission is not.\<close>

lemma refused_addresses:
  "\<not> isEmail (js ''a@b.'')" "\<not> isEmail (js ''a@.b'')" "\<not> isEmail (js ''@b.c'')"
  "\<not> isEmail (js ''a b@c.d'')" "\<not> isEmail (js ''a@b@c.d'')" "\<not> isEmail (js ''a@bc'')"
  by (simp_all add: isEmail_def email_rx_def Rep1_def js_def not_space_at_def isWhiteSpace_def
      at_sign_def full_stop_def)

lemma not_an_address: "\<not> isEmail (js ''not an address'')"
  by (simp add: isEmail_def email_rx_def Rep1_def js_def not_space_at_def isWhiteSpace_def
      at_sign_def full_stop_def)

theorem email_rule_is_the_shape_witness:
  "contact smtp_config delivering faulty_body =
     (res_json 400 (error_body (js ''Invalid email address.'')), [])
   \<and> contact_api api_config delivering faulty_body =
     (res_json 400 (error_body (js ''Invalid email address.'')), [])
   \<and> contact smtp_config delivering jane_body \<noteq>
     (res_json 400 (error_body (js ''Invalid email address.'')), [])
   \<and> contact_api api_config delivering jane_body \<noteq>
     (res_json 400 (error_body (js ''Invalid email address.'')), [])"
proof -
  let ?f = "\<lparr>name = js ''Al'', email = js ''not an address'', subject = js ''x'',
          message = js ''short'', source = [], honeypot = []\<rparr>"
  note shape = email_rule_is_the_shape [where w = delivering]
  have bad: "\<not> email_shape (email ?f)"
    using shape [where v = "js ''not an address''"] not_an_address by simp
  have good: "email_shape (email jane)"
    using shape [where v = "js ''jane@example.com''"] jane_valid(3) by (simp add: jane_def)
  have len: "2 \<le> length (name ?f)" "2 \<le> length (name jane)" "honeypot jane = []"
    by (simp_all add: js_def jane_def)
  from shape [where b = faulty_body and f = ?f and g = ?f and cfg = smtp_config]
    shape [where b = faulty_body and f = ?f and g = ?f and cfg = api_config]
    shape [where b = jane_body and f = jane and g = jane and cfg = smtp_config]
    shape [where b = jane_body and f = jane and g = jane and cfg = api_config]
    bad good len
  show ?thesis
    by (simp add: faulty_fields jane_fields jane_fields_api)
qed

section \<open>C5: addresses handed to the mail API\<close>

text \<open>
  What \<open>extractEmail\<close> returns: the first bracketed group, which is the address when the
  display name has no \<^verbatim>\<open><\<close> and the address is not empty and has no \<^verbatim>\<open>>\<close>; a value without
  \<^verbatim>\<open><\<close> is returned as it is. A group that \<open>exec_bracket\<close> returns stands between
  \<^verbatim>\<open><\<close> and \<^verbatim>\<open>>\<close> in the value and is matched by \<^verbatim>\<open><[^>]+>\<close>, and a value that holds
  such a match has a group.
\<close>

lemma exec_bracket_none: "less_than_sign \<notin> set v \<Longrightarrow> exec_bracket v = None"
  by (induction v) auto

lemma exec_bracket_skip:
  "less_than_sign \<notin> set dn \<Longrightarrow> exec_bracket (dn @ v) = exec_bracket v"
  by (induction dn) auto

lemma exec_bracket_here:
  assumes "addr \<noteq> []" "greater_than_sign \<notin> set addr"
  shows "exec_bracket (less_than_sign # addr @ greater_than_sign # rest) = Some addr"
proof -
  have all: "\<forall>x\<in>set addr. x \<noteq> greater_than_sign" using assms(2) by auto
  have "takeWhile (\<lambda>x. x \<noteq> greater_than_sign) (addr @ greater_than_sign # rest) =
      takeWhile (\<lambda>x. x \<noteq> greater_than_sign) addr"
    by (simp add: takeWhile_tail)
  with all have t: "takeWhile (\<lambda>x. x \<noteq> greater_than_sign) (addr @ greater_than_sign # rest) = addr"
    by (simp add: takeWhile_eq_all_conv)
  from all have d: "dropWhile (\<lambda>x. x \<noteq> greater_than_sign) (addr @ greater_than_sign # rest) =
      greater_than_sign # rest"
    by (simp add: dropWhile_append2)
  show ?thesis
    unfolding exec_bracket.simps t d using assms(1) by simp
qed

lemma extractEmail_display:
  "less_than_sign \<notin> set dn \<Longrightarrow> addr \<noteq> [] \<Longrightarrow> greater_than_sign \<notin> set addr \<Longrightarrow>
   extractEmail (dn @ js '' <'' @ addr @ js ''>'') = addr"
proof -
  assume dn: "less_than_sign \<notin> set dn" and addr: "addr \<noteq> []" "greater_than_sign \<notin> set addr"
  have "less_than_sign \<notin> set (dn @ js '' '')"
    using dn by (simp add: js_def less_than_sign_def)
  then have "exec_bracket ((dn @ js '' '') @ less_than_sign # addr @ greater_than_sign # []) =
      exec_bracket (less_than_sign # addr @ greater_than_sign # [])"
    by (rule exec_bracket_skip)
  also have "\<dots> = Some addr" using addr by (rule exec_bracket_here)
  finally have "exec_bracket (dn @ js '' <'' @ addr @ js ''>'') = Some addr"
    by (simp add: js_def less_than_sign_def greater_than_sign_def)
  then show ?thesis by (simp add: extractEmail_def)
qed

lemma extractEmail_plain: "less_than_sign \<notin> set v \<Longrightarrow> extractEmail v = v"
  by (simp add: extractEmail_def exec_bracket_none)

lemma exec_bracket_sound:
  "exec_bracket v = Some g \<Longrightarrow>
   g \<noteq> [] \<and> greater_than_sign \<notin> set g
     \<and> (\<exists>pre post. v = pre @ less_than_sign # g @ greater_than_sign # post)"
proof (induction v)
  case Nil
  then show ?case by simp
next
  case (Cons c cs)
  let ?t = "takeWhile (\<lambda>x. x \<noteq> greater_than_sign) cs"
  let ?d = "dropWhile (\<lambda>x. x \<noteq> greater_than_sign) cs"
  show ?case
  proof (cases "c = less_than_sign \<and> ?t \<noteq> [] \<and> ?d \<noteq> []")
    case True
    with Cons.prems have g: "g = ?t" by simp
    from True have "hd ?d = greater_than_sign"
      using hd_dropWhile [of "\<lambda>x. x \<noteq> greater_than_sign" cs] by auto
    with True have "?d = greater_than_sign # tl ?d" by (cases ?d) auto
    then have "cs = ?t @ greater_than_sign # tl ?d"
      using takeWhile_dropWhile_id [of "\<lambda>x. x \<noteq> greater_than_sign" cs] by simp
    with True g have "c # cs = [] @ less_than_sign # g @ greater_than_sign # tl ?d" by simp
    then have ex: "\<exists>pre post. c # cs = pre @ less_than_sign # g @ greater_than_sign # post"
      by blast
    have "greater_than_sign \<notin> set g"
      unfolding g using set_takeWhileD by fastforce
    moreover from True g have "g \<noteq> []" by simp
    ultimately show ?thesis using ex by simp
  next
    case False
    with Cons.prems have "exec_bracket cs = Some g" by auto
    from Cons.IH [OF this] obtain pre post where
      "g \<noteq> []" "greater_than_sign \<notin> set g" "cs = pre @ less_than_sign # g @ greater_than_sign # post"
      by blast
    then have "c # cs = (c # pre) @ less_than_sign # g @ greater_than_sign # post" by simp
    with \<open>g \<noteq> []\<close> \<open>greater_than_sign \<notin> set g\<close> show ?thesis by blast
  qed
qed

lemma exec_bracket_complete:
  "g \<noteq> [] \<Longrightarrow> greater_than_sign \<notin> set g \<Longrightarrow>
   \<exists>g'. exec_bracket (pre @ less_than_sign # g @ greater_than_sign # post) = Some g'"
proof (induction pre)
  case Nil
  then show ?case using exec_bracket_here [of g post] by simp
next
  case (Cons c pre)
  then show ?case by simp
qed

lemma exec_bracket_matches:
  "exec_bracket v = Some g \<Longrightarrow>
   matches (Cat (Class (\<lambda>c. c = less_than_sign))
             (Cat (Rep1 (Class (\<lambda>c. c \<noteq> greater_than_sign)))
                  (Class (\<lambda>c. c = greater_than_sign))))
     (less_than_sign # g @ [greater_than_sign])"
proof -
  assume "exec_bracket v = Some g"
  then have g: "g \<noteq> []" "greater_than_sign \<notin> set g"
    using exec_bracket_sound by blast+
  then have "g \<in> lang (Rep1 (Class (\<lambda>c. c \<noteq> greater_than_sign)))"
    unfolding lang_Rep1_Class by auto
  then have "[less_than_sign] @ g @ [greater_than_sign] \<in>
      conc {[less_than_sign]}
        (conc (lang (Rep1 (Class (\<lambda>c. c \<noteq> greater_than_sign)))) {[greater_than_sign]})"
    unfolding in_conc by blast
  then show ?thesis
    by (simp add: matches_lang lang_Class_eq)
qed

lemma api_gets_bare_address:
  "less_than_sign \<notin> set (name f) \<Longrightarrow> email f \<noteq> [] \<Longrightarrow> greater_than_sign \<notin> set (email f) \<Longrightarrow>
   replyTo_email (brevo_request_of (payload_of cfg f)) = Some (email f)"
  by (simp add: brevo_request_of_def payload_of_def replyTo_of_def extractEmail_display)

lemma smtp_gets_display_form:
  "mail_from (payload_of cfg f) = FROM_EMAIL cfg \<and> mail_to (payload_of cfg f) = TO_EMAIL cfg
   \<and> mail_replyTo (payload_of cfg f) = name f @ js '' <'' @ email f @ js ''>''
   \<and> mail_from (mail_of cfg f) = FROM_EMAIL cfg \<and> mail_to (mail_of cfg f) = TO_EMAIL cfg
   \<and> mail_replyTo (mail_of cfg f) = name f @ js '' <'' @ email f @ js ''>''"
  by (simp add: payload_of_def mail_of_def replyTo_of_def)

lemma heart_fields:
  "read_fields sanitize_api heart_body = Inr heart"
  by (simp add: read_fields_def sanitize_api_def heart_body_def heart_def js_def trim_def isWhiteSpace_def)

lemma heart_valid: "honeypot heart = []" "\<not> length (name heart) < 2" "isEmail (email heart)"
  "\<not> length (subject heart) < 2" "\<not> length (message heart) < 10"
  by (simp_all add: heart_def js_def isEmail_def email_rx_def Rep1_def not_space_at_def
      isWhiteSpace_def at_sign_def full_stop_def)

text \<open>
  C5 at the name \<^verbatim>\<open>Jane <3\<close>: the handler builds the replyTo
  \<^verbatim>\<open>Jane <3 <jane@example.com>\<close>, and the mail API is handed \<^verbatim>\<open>3 <jane@example.com\<close>,
  the text between the first \<^verbatim>\<open><\<close> and the \<^verbatim>\<open>>\<close>, not the address \<^verbatim>\<open>jane@example.com\<close>.
\<close>

theorem replyTo_of_bracketed_name:
  "mail_replyTo (payload_of api_config heart) = js ''Jane <3 <jane@example.com>''
   \<and> extractEmail (js ''Jane <3 <jane@example.com>'') = js ''3 <jane@example.com''
   \<and> snd (contact_api api_config delivering heart_body) =
       [BrevoPost \<lparr>sender_email = js ''cwingo64@gmail.com'', to_email = js ''cmwingo@email.sc.edu'',
                   replyTo_email = Some (js ''3 <jane@example.com''),
                   brevo_subject = js ''[bmDub Contact] Hello'',
                   textContent = mail_text (payload_of api_config heart)\<rparr>]"
proof -
  have a: "mail_replyTo (payload_of api_config heart) = js ''Jane <3 <jane@example.com>''"
    by (simp add: payload_of_def replyTo_of_def heart_def js_def)
  have b: "extractEmail (js ''Jane <3 <jane@example.com>'') = js ''3 <jane@example.com''"
    by (simp add: extractEmail_def js_def less_than_sign_def greater_than_sign_def)
  have c: "brevo_request_of (payload_of api_config heart) =
      \<lparr>sender_email = js ''cwingo64@gmail.com'', to_email = js ''cmwingo@email.sc.edu'',
                   replyTo_email = Some (js ''3 <jane@example.com''),
                   brevo_subject = js ''[bmDub Contact] Hello'',
                   textContent = mail_text (payload_of api_config heart)\<rparr>"
    unfolding brevo_request_of_def a b
    by (simp add: payload_of_def api_config_def extract_jane subject_of_def heart_def) (simp add: js_def)
  have "\<not> missing (BREVO_API_KEY api_config)"
    by (simp add: api_config_def js_def)
  then have "snd (contact_api api_config delivering heart_body) =
      [BrevoPost (brevo_request_of (payload_of api_config heart))]"
    by (simp add: contact_api_fields [OF heart_fields] heart_valid split: option.split)
  with a b c show ?thesis by simp
qed

section \<open>C8: a delivery failure\<close>

text \<open>When the call of the mail API counts as failed.\<close>

lemma brevo_failure:
  "sendViaBrevoAPI w p \<noteq> None \<longleftrightarrow>
     (case fetch w (brevo_request_of p) of
        FetchRejected err \<Rightarrow> True
      | FetchResponse st txt parsed \<Rightarrow> \<not> (200 \<le> st \<and> st \<le> 299) \<or> parsed \<noteq> None)"
  by (simp add: sendViaBrevoAPI_def split: fetch_result.split)

text \<open>
  C8. For a submission that passes the honeypot and the four rules, when the backend
  in use reports a failure (\<^verbatim>\<open>sendMail\<close> rejects, or \<^verbatim>\<open>sendViaBrevoAPI\<close> throws), the
  handler answers with status 500, the only response of the request, and has called the
  backend exactly once.
\<close>

theorem delivery_failure_is_500:
  "(read_fields sanitize b = Inr f \<and> honeypot f = [] \<and> first_broken f = None
      \<and> sendMail w (mail_of cfg f) = Some err \<longrightarrow>
      contact cfg w b = (res_json 500 (error_body (error_text err)), [SendMail (mail_of cfg f)]))
   \<and> (read_fields sanitize_api b = Inr g \<and> honeypot g = [] \<and> first_broken g = None
      \<and> \<not> missing (BREVO_API_KEY cfg) \<and> sendViaBrevoAPI w (payload_of cfg g) = Some err \<longrightarrow>
      contact_api cfg w b =
        (res_json 500 failed_to_send, [BrevoPost (brevo_request_of (payload_of cfg g))]))
   \<and> (read_fields sanitize_api b = Inr g \<and> honeypot g = [] \<and> first_broken g = None
      \<and> missing (BREVO_API_KEY cfg) \<and> transporter cfg = Some t
      \<and> sendMail w (payload_of cfg g) = Some err \<longrightarrow>
      contact_api cfg w b = (res_json 500 failed_to_send, [SendMail (payload_of cfg g)]))
   \<and> status (res_json 500 j) = 500"
proof -
  have a: "read_fields sanitize b = Inr f \<and> honeypot f = [] \<and> first_broken f = None
      \<and> sendMail w (mail_of cfg f) = Some err \<longrightarrow>
      contact cfg w b = (res_json 500 (error_body (error_text err)), [SendMail (mail_of cfg f)])"
    by (auto simp: contact_fields first_broken_cases split: if_splits)
  have b: "read_fields sanitize_api b = Inr g \<and> honeypot g = [] \<and> first_broken g = None
      \<and> \<not> missing (BREVO_API_KEY cfg) \<and> sendViaBrevoAPI w (payload_of cfg g) = Some err \<longrightarrow>
      contact_api cfg w b =
        (res_json 500 failed_to_send, [BrevoPost (brevo_request_of (payload_of cfg g))])"
    by (auto simp: contact_api_fields first_broken_cases split: if_splits)
  have c: "read_fields sanitize_api b = Inr g \<and> honeypot g = [] \<and> first_broken g = None
      \<and> missing (BREVO_API_KEY cfg) \<and> transporter cfg = Some t
      \<and> sendMail w (payload_of cfg g) = Some err \<longrightarrow>
      contact_api cfg w b = (res_json 500 failed_to_send, [SendMail (payload_of cfg g)])"
    by (auto simp: contact_api_fields first_broken_cases split: if_splits)
  have d: "status (res_json 500 j) = 500"
    by (simp add: res_json_def)
  from a b c d show ?thesis by blast
qed

text \<open>Instances: the valid submission in a world where the transport and the mail API refuse.\<close>

lemma jane_first_broken: "first_broken jane = None"
  by (simp add: first_broken_cases jane_valid)

theorem delivery_failure_is_500_witness:
  "contact smtp_config refusing jane_body =
     (res_json 500 (error_body (js ''connect ECONNREFUSED'')), [SendMail (jane_mail smtp_config)])
   \<and> contact_api api_config refusing jane_body =
     (res_json 500 failed_to_send, [BrevoPost (brevo_request_of (jane_mail api_config))])
   \<and> contact_api smtp_config refusing jane_body =
     (res_json 500 failed_to_send, [SendMail (jane_mail smtp_config)])"
proof -
  let ?e = "JsError (js ''Error'') (js ''connect ECONNREFUSED'')"
  let ?h = "JsError (js ''Error'') (js ''Brevo API 401: unauthorized'')"
  have smtp: "sendMail refusing (mail_of smtp_config jane) = Some ?e"
    "sendMail refusing (payload_of smtp_config jane) = Some ?e"
    by (simp_all add: refusing_def)
  have api: "sendViaBrevoAPI refusing (payload_of api_config jane) = Some ?h"
    by (simp add: sendViaBrevoAPI_def refusing_def) (simp add: js_def)
  have keys: "\<not> missing (BREVO_API_KEY api_config)" "missing (BREVO_API_KEY smtp_config)"
    "transporter smtp_config =
       Some \<lparr>smtp_host = js ''smtp.example.com'', smtp_port = js ''587'',
             smtp_user = js ''user'', smtp_pass = js ''secret''\<rparr>"
    by (simp_all add: api_config_def smtp_config_def js_def)
  have msg: "error_text ?e = js ''connect ECONNREFUSED''"
    by (simp add: error_text_def js_def)
  from delivery_failure_is_500
      [where b = jane_body and f = jane and g = jane and w = refusing and cfg = smtp_config
         and err = ?e
         and t = "\<lparr>smtp_host = js ''smtp.example.com'', smtp_port = js ''587'',
             smtp_user = js ''user'', smtp_pass = js ''secret''\<rparr>"]
    delivery_failure_is_500
      [where b = jane_body and f = jane and g = jane and w = refusing and cfg = api_config
         and err = ?h]
    smtp api keys msg
  show ?thesis
    by (simp add: jane_fields jane_fields_api jane_valid jane_first_broken jane_mail_of jane_payload_of)
qed

section \<open>C7: the CORS gate\<close>

text \<open>
  The callback allows a request without an Origin header, with an empty one, or with
  one that is an entry of the allow-list; the chain answers a refused request from the
  error handler and hands an allowed one on.
\<close>

lemma cors_origin_allows:
  "cors_origin allow origin = Inr True \<longleftrightarrow>
     origin = None \<or> origin = Some [] \<or> (\<exists>v. origin = Some v \<and> v \<in> set allow)"
  by (auto simp: cors_origin_def split: option.splits)

lemma cors_origin_rejects:
  "cors_origin allow origin \<noteq> Inr True \<Longrightarrow>
     cors_origin allow origin = Inl (JsError (js ''Error'') (js ''Not allowed by CORS''))"
  by (auto simp: cors_origin_def split: option.splits)

lemma chain_rejects:
  "cors_origin (allowList cfg) (req_origin req) \<noteq> Inr True \<Longrightarrow>
     chain rts cfg w store now req = (res_json 500 (error_body (js ''Internal server error.'')), [], store)"
  by (simp add: chain_def cors_origin_rejects error_handler_def)

lemma chain_allowed:
  assumes "cors_origin (allowList cfg) (req_origin req) = Inr True"
    and "rts cfg w (req\<lparr>req_origin := None\<rparr>) = rts cfg w req"
  shows "chain rts cfg w store now req = chain rts cfg w store now (req\<lparr>req_origin := None\<rparr>)"
proof -
  have "cors_origin (allowList cfg) None = Inr True" by (simp add: cors_origin_def)
  with assms show ?thesis by (simp add: chain_def split: sum.split prod.split)
qed

lemma parse_origins_no_empty: "[] \<notin> set (parse_origins s)"
  by (simp add: parse_origins_def)

text \<open>
  C7 (as amended). The CORS gate allows a request exactly when it has no Origin header,
  or an empty one, or one that is equal, code unit for code unit, to an entry of the
  allow-list. A refused request reaches neither the limiter nor a route: no mail is
  sent, the limiter's store is unchanged, and the response is the error handler's,
  status 500 with the JSON body \<^verbatim>\<open>{"error": "Internal server error."}\<close>, whatever
  the method, path and body. An allowed request is served as one without Origin header.
\<close>

theorem cors_gate:
  "(cors_origin (allowList cfg) (req_origin req) = Inr True \<longleftrightarrow>
      req_origin req = None \<or> req_origin req = Some []
      \<or> (\<exists>v. req_origin req = Some v \<and> v \<in> set (allowList cfg)))
   \<and> (cors_origin (allowList cfg) (req_origin req) \<noteq> Inr True \<longrightarrow>
        app cfg w store now req =
          (res_json 500 (error_body (js ''Internal server error.'')), [], store)
        \<and> app_api cfg w store now req =
          (res_json 500 (error_body (js ''Internal server error.'')), [], store))
   \<and> (cors_origin (allowList cfg) (req_origin req) = Inr True \<longrightarrow>
        app cfg w store now req = app cfg w store now (req\<lparr>req_origin := None\<rparr>)
        \<and> app_api cfg w store now req = app_api cfg w store now (req\<lparr>req_origin := None\<rparr>))"
proof -
  have a: "cors_origin (allowList cfg) (req_origin req) \<noteq> Inr True \<longrightarrow>
        app cfg w store now req =
          (res_json 500 (error_body (js ''Internal server error.'')), [], store)
        \<and> app_api cfg w store now req =
          (res_json 500 (error_body (js ''Internal server error.'')), [], store)"
    by (simp add: app_def app_api_def chain_rejects)
  have "routes cfg w (req\<lparr>req_origin := None\<rparr>) = routes cfg w req"
    "routes_api cfg w (req\<lparr>req_origin := None\<rparr>) = routes_api cfg w req"
    by (simp_all add: routes_def routes_api_def fun_eq_iff)
  then have b: "cors_origin (allowList cfg) (req_origin req) = Inr True \<longrightarrow>
        app cfg w store now req = app cfg w store now (req\<lparr>req_origin := None\<rparr>)
        \<and> app_api cfg w store now req = app_api cfg w store now (req\<lparr>req_origin := None\<rparr>)"
    by (simp add: app_def app_api_def chain_allowed)
  from a b show ?thesis by (simp add: cors_origin_allows)
qed

text \<open>
  Instances, with the default allow-lists: \<^verbatim>\<open>https://CWINGO.github.io\<close> is refused
  though \<^verbatim>\<open>https://Cwingo.github.io\<close> and \<^verbatim>\<open>https://cwingo.github.io\<close> are entries.
\<close>

lemma example_allowLists:
  "allowList smtp_config =
     [js ''https://cwingo.github.io'', js ''https://Cwingo.github.io'',
      js ''https://cwingo242.github.io'', js ''http://localhost:5173'', js ''http://localhost:5174'']"
  "allowList api_config =
     [js ''https://cwingo.github.io'', js ''https://Cwingo.github.io'',
      js ''https://cwingo242.github.io'', js ''http://localhost:5173'']"
  by (simp_all add: smtp_config_def api_config_def parse_origins_def default_origins_def
      default_origins_api_def js_def trim_def isWhiteSpace_def)

lemma example_origins:
  "js ''https://evil.example'' \<notin> set (allowList smtp_config)"
  "js ''https://evil.example'' \<notin> set (allowList api_config)"
  "js ''https://CWINGO.github.io'' \<notin> set (allowList smtp_config)"
  "js ''https://CWINGO.github.io'' \<notin> set (allowList api_config)"
  "js ''https://cwingo.github.io'' \<in> set (allowList smtp_config)"
  "js ''https://cwingo.github.io'' \<in> set (allowList api_config)"
  unfolding example_allowLists by (simp_all add: js_def)

theorem cors_gate_witness:
  "app smtp_config delivering no_hits 0 shouting_request =
     (res_json 500 (error_body (js ''Internal server error.'')), [], no_hits)
   \<and> app_api api_config delivering no_hits 0 shouting_request =
     (res_json 500 (error_body (js ''Internal server error.'')), [], no_hits)
   \<and> cors_origin (allowList smtp_config) (req_origin friendly_request) = Inr True
   \<and> app smtp_config delivering no_hits 0 friendly_request =
       app smtp_config delivering no_hits 0 (friendly_request\<lparr>req_origin := None\<rparr>)
   \<and> app_api api_config delivering no_hits 0 friendly_request =
       app_api api_config delivering no_hits 0 (friendly_request\<lparr>req_origin := None\<rparr>)"
proof -
  note gate = cors_gate [where w = delivering and store = no_hits and now = 0]
  have o: "req_origin shouting_request = Some (js ''https://CWINGO.github.io'')"
    "req_origin friendly_request = Some (js ''https://cwingo.github.io'')"
    "js ''https://CWINGO.github.io'' \<noteq> []"
    by (simp_all add: shouting_request_def friendly_request_def post_from_def js_def)
  from gate [where cfg = smtp_config and req = shouting_request]
    gate [where cfg = api_config and req = shouting_request] o example_origins
  have a: "app smtp_config delivering no_hits 0 shouting_request =
     (res_json 500 (error_body (js ''Internal server error.'')), [], no_hits)"
    "app_api api_config delivering no_hits 0 shouting_request =
     (res_json 500 (error_body (js ''Internal server error.'')), [], no_hits)"
    by simp_all
  from gate [where cfg = smtp_config and req = friendly_request]
    gate [where cfg = api_config and req = friendly_request] o example_origins
  have b: "cors_origin (allowList smtp_config) (req_origin friendly_request) = Inr True"
    "app smtp_config delivering no_hits 0 friendly_request =
       app smtp_config delivering no_hits 0 (friendly_request\<lparr>req_origin := None\<rparr>)"
    "app_api api_config delivering no_hits 0 friendly_request =
       app_api api_config delivering no_hits 0 (friendly_request\<lparr>req_origin := None\<rparr>)"
    by simp_all
  from a b show ?thesis by simp
qed

text \<open>
  C7 as stated fails: the refusal of \<^verbatim>\<open>https://evil.example\<close> is answered with a JSON
  body, and an Origin header that is present and empty is allowed although no entry of
  the allow-list is empty.
\<close>

theorem cors_rejection_counterexample:
  "app smtp_config delivering no_hits 0 evil_request =
     (\<lparr>status = 500, rate_headers = None,
       body = Json (JObj [(js ''error'', JStr (js ''Internal server error.''))])\<rparr>, [], no_hits)
   \<and> app_api api_config delivering no_hits 0 evil_request =
     (\<lparr>status = 500, rate_headers = None,
       body = Json (JObj [(js ''error'', JStr (js ''Internal server error.''))])\<rparr>, [], no_hits)
   \<and> cors_origin (allowList smtp_config) (Some []) = Inr True
   \<and> [] \<notin> set (allowList smtp_config)"
proof -
  have "cors_origin (allowList smtp_config) (req_origin evil_request) \<noteq> Inr True"
    "cors_origin (allowList api_config) (req_origin evil_request) \<noteq> Inr True"
    using example_origins(1,2)
    by (simp_all add: cors_origin_allows evil_request_def post_from_def) (simp_all add: js_def)
  then have "app smtp_config delivering no_hits 0 evil_request =
      (res_json 500 (error_body (js ''Internal server error.'')), [], no_hits)"
    "app_api api_config delivering no_hits 0 evil_request =
      (res_json 500 (error_body (js ''Internal server error.'')), [], no_hits)"
    by (simp_all add: app_def app_api_def chain_rejects)
  moreover have "cors_origin (allowList smtp_config) (Some []) = Inr True"
    by (simp add: cors_origin_def)
  moreover have "[] \<notin> set (allowList smtp_config)"
    by (simp add: smtp_config_def parse_origins_no_empty)
  ultimately show ?thesis by (simp add: res_json_def error_body_def)
qed

section \<open>C6: the rate limiter\<close>

text \<open>
  What the limiter answers when it opens a window and inside a running one; the
  routes never answer 429 themselves and set no rate headers; the chain at a request
  that reaches the limiter, and at one that does not.
\<close>

lemma limiter_opens:
  "(\<forall>h e. store a = Some (h, e) \<longrightarrow> e \<le> now) \<Longrightarrow>
   limiter store now a =
     (False, \<lparr>rl_limit = 5, rl_remaining = 4, rl_reset = 60\<rparr>, store(a \<mapsto> (1, now + windowMs)))"
  by (auto simp: limiter_def max_hits_def windowMs_def split: option.splits)

lemma limiter_counts:
  "store a = Some (h, e) \<Longrightarrow> now < e \<Longrightarrow>
   limiter store now a =
     (5 \<le> h, \<lparr>rl_limit = 5, rl_remaining = 4 - h, rl_reset = (e - now + 999) div 1000\<rparr>,
      store(a \<mapsto> (h + 1, e)))"
  by (auto simp: limiter_def max_hits_def)

lemma contact_status: "status (fst (contact cfg w b)) \<in> {200, 400, 500}"
  by (cases "read_fields sanitize b")
     (auto simp: contact_def contact_fields res_json_def split: option.splits)

lemma contact_api_status: "status (fst (contact_api cfg w b)) \<in> {200, 400, 500}"
proof (cases "read_fields sanitize_api b")
  case (Inl e)
  then show ?thesis by (simp add: contact_api_def res_json_def)
next
  case (Inr f)
  show ?thesis
    unfolding contact_api_fields [OF Inr]
    by (auto simp: res_json_def split: option.splits)
qed

lemma routes_status:
  "status (fst (routes cfg w req b)) \<noteq> 429"
  "status (fst (routes_api cfg w req b)) \<noteq> 429"
  using contact_status [of cfg w b] contact_api_status [of cfg w b]
  by (auto simp: routes_def routes_api_def res_json_def not_found_def split: option.splits)

lemma chain_over:
  "reaches_limiter cfg req \<Longrightarrow> limiter store now (req_ip req) = (True, info, store') \<Longrightarrow>
   chain rts cfg w store now req = (too_many\<lparr>rate_headers := Some info\<rparr>, [], store')"
  by (auto simp: reaches_limiter_def chain_def split: sum.splits)

lemma chain_under:
  "reaches_limiter cfg req \<Longrightarrow> limiter store now (req_ip req) = (False, info, store') \<Longrightarrow>
   req_body req = Inr b \<Longrightarrow>
   chain rts cfg w store now req =
     ((fst (rts cfg w req b))\<lparr>rate_headers := Some info\<rparr>, snd (rts cfg w req b), store')"
  by (auto simp: reaches_limiter_def chain_def split: sum.splits prod.splits)

lemma chain_limited_response:
  assumes "reaches_limiter cfg req" "limiter store now (req_ip req) = (over, info, store')"
    and "\<And>w req b. status (fst (rts cfg w req b)) \<noteq> 429"
  shows "(status (fst (chain rts cfg w store now req)) = 429 \<longleftrightarrow> over)
     \<and> rate_headers (fst (chain rts cfg w store now req)) = Some info
     \<and> snd (snd (chain rts cfg w store now req)) = store'"
proof (cases over)
  case True
  with assms(1,2) show ?thesis by (simp add: chain_over too_many_def)
next
  case False
  from assms(1) obtain b where "req_body req = Inr b"
    by (auto simp: reaches_limiter_def split: sum.splits)
  with False assms show ?thesis by (simp add: chain_under)
qed

lemma serve_window:
  assumes quiet: "\<And>w req b. status (fst (rts cfg w req b)) \<noteq> 429"
  shows "store a = Some (h, e) \<Longrightarrow>
     (\<forall>(t, w, r) \<in> set rs. reaches_limiter cfg r \<and> req_ip r = a \<and> t < e) \<Longrightarrow>
     i < length rs \<Longrightarrow>
     (status (serve (chain rts cfg) store rs ! i) = 429 \<longleftrightarrow> 5 \<le> h + i)
     \<and> rate_headers (serve (chain rts cfg) store rs ! i) =
         Some \<lparr>rl_limit = 5, rl_remaining = 4 - (h + i),
               rl_reset = (e - fst (rs ! i) + 999) div 1000\<rparr>"
proof (induction rs arbitrary: store h i)
  case Nil
  then show ?case by simp
next
  case (Cons x rs)
  obtain t w r where x: "x = (t, w, r)" by (cases x)
  with Cons.prems have r: "reaches_limiter cfg r" "req_ip r = a" "t < e" by auto
  let ?store = "store(a \<mapsto> (h + 1, e))"
  let ?info = "\<lparr>rl_limit = 5, rl_remaining = 4 - h, rl_reset = (e - t + 999) div 1000\<rparr>"
  have lim: "limiter store t (req_ip r) = (5 \<le> h, ?info, ?store)"
    using Cons.prems(1) r by (simp add: limiter_counts)
  have head: "(status (fst (chain rts cfg w store t r)) = 429 \<longleftrightarrow> 5 \<le> h)
     \<and> rate_headers (fst (chain rts cfg w store t r)) = Some ?info
     \<and> snd (snd (chain rts cfg w store t r)) = ?store"
    using r(1) lim quiet by (rule chain_limited_response [where rts = rts])
  obtain res sent where c: "chain rts cfg w store t r = (res, sent, ?store)"
    using head by (cases "chain rts cfg w store t r") auto
  with head have res: "status res = 429 \<longleftrightarrow> 5 \<le> h" "rate_headers res = Some ?info" by simp_all
  have out: "serve (chain rts cfg) store (x # rs) = res # serve (chain rts cfg) ?store rs"
    by (simp add: x c)
  show ?case
  proof (cases i)
    case 0
    with res out x show ?thesis by simp
  next
    case (Suc j)
    with Cons.prems have j: "j < length rs" by simp
    have "?store a = Some (h + 1, e)" by simp
    moreover from Cons.prems(2) have "\<forall>(t, w, r) \<in> set rs. reaches_limiter cfg r \<and> req_ip r = a \<and> t < e"
      by simp
    ultimately have "(status (serve (chain rts cfg) ?store rs ! j) = 429 \<longleftrightarrow> 5 \<le> h + 1 + j)
     \<and> rate_headers (serve (chain rts cfg) ?store rs ! j) =
         Some \<lparr>rl_limit = 5, rl_remaining = 4 - (h + 1 + j),
               rl_reset = (e - fst (rs ! j) + 999) div 1000\<rparr>"
      using j by (rule Cons.IH)
    with out Suc show ?thesis by simp
  qed
qed

lemma six_in_a_window:
  assumes quiet: "\<And>w req b. status (fst (rts cfg w req b)) \<noteq> 429"
    and len: "length rs = 5"
    and reqs: "\<forall>(t, w, r) \<in> set ((t1, w1, r1) # rs).
        reaches_limiter cfg r \<and> req_ip r = a \<and> t < t1 + windowMs"
    and fresh: "\<forall>h e. store a = Some (h, e) \<longrightarrow> e \<le> t1"
  shows "(\<forall>i<5. status (serve (chain rts cfg) store ((t1, w1, r1) # rs) ! i) \<noteq> 429)
     \<and> status (serve (chain rts cfg) store ((t1, w1, r1) # rs) ! 5) = 429
     \<and> rate_headers (serve (chain rts cfg) store ((t1, w1, r1) # rs) ! 5) =
         Some \<lparr>rl_limit = 5, rl_remaining = 0,
               rl_reset = (t1 + windowMs - fst (rs ! 4) + 999) div 1000\<rparr>"
proof -
  let ?store = "store(a \<mapsto> (1, t1 + windowMs))"
  let ?info = "\<lparr>rl_limit = 5, rl_remaining = 4, rl_reset = 60\<rparr>"
  from reqs have r1: "reaches_limiter cfg r1" "req_ip r1 = a" by auto
  have lim: "limiter store t1 (req_ip r1) = (False, ?info, ?store)"
    using fresh r1 by (simp add: limiter_opens)
  have head: "(status (fst (chain rts cfg w1 store t1 r1)) = 429 \<longleftrightarrow> False)
     \<and> rate_headers (fst (chain rts cfg w1 store t1 r1)) = Some ?info
     \<and> snd (snd (chain rts cfg w1 store t1 r1)) = ?store"
    using r1(1) lim quiet by (rule chain_limited_response [where rts = rts])
  obtain res sent where c: "chain rts cfg w1 store t1 r1 = (res, sent, ?store)"
    using head by (cases "chain rts cfg w1 store t1 r1") auto
  with head have res: "status res \<noteq> 429" by simp
  have out: "serve (chain rts cfg) store ((t1, w1, r1) # rs) = res # serve (chain rts cfg) ?store rs"
    by (simp add: c)
  have rest: "\<forall>(t, w, r) \<in> set rs. reaches_limiter cfg r \<and> req_ip r = a \<and> t < t1 + windowMs"
    using reqs by simp
  have window: "(status (serve (chain rts cfg) ?store rs ! j) = 429 \<longleftrightarrow> 5 \<le> 1 + j)
     \<and> rate_headers (serve (chain rts cfg) ?store rs ! j) =
         Some \<lparr>rl_limit = 5, rl_remaining = 4 - (1 + j),
               rl_reset = (t1 + windowMs - fst (rs ! j) + 999) div 1000\<rparr>"
    if "j < 5" for j
    using serve_window [where rts = rts and cfg = cfg and store = ?store and a = a and h = 1
        and e = "t1 + windowMs" and rs = rs and i = j, OF quiet] rest that len
    by simp
  have first: "status (serve (chain rts cfg) store ((t1, w1, r1) # rs) ! i) \<noteq> 429" if "i < 5" for i
  proof (cases i)
    case 0
    with res out show ?thesis by simp
  next
    case (Suc j)
    with that window [of j] out show ?thesis by simp
  qed
  from window [of 4] out
  have "status (serve (chain rts cfg) store ((t1, w1, r1) # rs) ! 5) = 429"
    "rate_headers (serve (chain rts cfg) store ((t1, w1, r1) # rs) ! 5) =
         Some \<lparr>rl_limit = 5, rl_remaining = 0,
               rl_reset = (t1 + windowMs - fst (rs ! 4) + 999) div 1000\<rparr>"
    by simp_all
  with first show ?thesis by blast
qed

lemma contact_headers:
  "rate_headers (fst (contact cfg w b)) = None"
  "rate_headers (fst (contact_api cfg w b)) = None"
proof -
  show "rate_headers (fst (contact cfg w b)) = None"
    by (cases "read_fields sanitize b")
       (auto simp: contact_def contact_fields res_json_def split: option.splits)
  show "rate_headers (fst (contact_api cfg w b)) = None"
  proof (cases "read_fields sanitize_api b")
    case (Inl e)
    then show ?thesis by (simp add: contact_api_def res_json_def)
  next
    case (Inr f)
    show ?thesis
      unfolding contact_api_fields [OF Inr]
      by (auto simp: res_json_def split: option.splits)
  qed
qed

lemma routes_headers:
  "rate_headers (fst (routes cfg w req b)) = None"
  "rate_headers (fst (routes_api cfg w req b)) = None"
  using contact_headers [of cfg w b]
  by (auto simp: routes_def routes_api_def res_json_def not_found_def split: option.splits)

lemma chain_elsewhere:
  assumes "req_target req \<notin> {Contact, BelowContact}"
    and "\<And>w req b. status (fst (rts cfg w req b)) \<noteq> 429"
    and "\<And>w req b. rate_headers (fst (rts cfg w req b)) = None"
  shows "status (fst (chain rts cfg w store now req)) \<noteq> 429
     \<and> rate_headers (fst (chain rts cfg w store now req)) = None
     \<and> snd (snd (chain rts cfg w store now req)) = store"
proof (cases "cors_origin (allowList cfg) (req_origin req)")
  case (Inl err)
  then show ?thesis by (simp add: chain_def error_handler_def res_json_def)
next
  case allowed: (Inr ok)
  show ?thesis
  proof (cases "req_method req = OPTIONS")
    case True
    with allowed show ?thesis by (simp add: chain_def)
  next
    case False
    show ?thesis
    proof (cases "req_body req")
      case (Inl err)
      with allowed False show ?thesis by (simp add: chain_def error_handler_def res_json_def)
    next
      case (Inr b)
      have "chain rts cfg w store now req = (fst (rts cfg w req b), snd (rts cfg w req b), store)"
        using allowed False Inr assms(1) by (simp add: chain_def case_prod_beta)
      with assms(2,3) show ?thesis by simp
    qed
  qed
qed

lemma chain_uncounted:
  assumes "\<not> reaches_limiter cfg req"
    and "\<And>w req b. status (fst (rts cfg w req b)) \<noteq> 429"
    and "\<And>w req b. rate_headers (fst (rts cfg w req b)) = None"
  shows "status (fst (chain rts cfg w store now req)) \<noteq> 429
     \<and> rate_headers (fst (chain rts cfg w store now req)) = None
     \<and> snd (snd (chain rts cfg w store now req)) = store"
proof (cases "cors_origin (allowList cfg) (req_origin req)")
  case (Inl err)
  then show ?thesis by (simp add: chain_def error_handler_def res_json_def)
next
  case allowed: (Inr ok)
  show ?thesis
  proof (cases "req_method req = OPTIONS")
    case True
    with allowed show ?thesis by (simp add: chain_def)
  next
    case False
    show ?thesis
    proof (cases "req_body req")
      case (Inl err)
      with allowed False show ?thesis by (simp add: chain_def error_handler_def res_json_def)
    next
      case (Inr b)
      have "cors_origin (allowList cfg) (req_origin req) = Inr True"
        using allowed by (auto simp: cors_origin_def split: option.splits if_splits)
      with assms(1) False Inr have "req_target req \<notin> {Contact, BelowContact}"
        by (simp add: reaches_limiter_def)
      then show ?thesis using assms(2,3) by (rule chain_elsewhere)
    qed
  qed
qed

lemma limiter_other: "k \<noteq> addr \<Longrightarrow> snd (snd (limiter store now addr)) k = store k"
  by (simp add: limiter_def Let_def split: option.split prod.split)

lemma chain_store_other:
  assumes "\<not> (reaches_limiter cfg req \<and> req_ip req = a)"
    and "\<And>w req b. status (fst (rts cfg w req b)) \<noteq> 429"
    and "\<And>w req b. rate_headers (fst (rts cfg w req b)) = None"
  shows "snd (snd (chain rts cfg w store now req)) a = store a"
proof (cases "reaches_limiter cfg req")
  case False
  then show ?thesis
    using chain_uncounted [where rts = rts and cfg = cfg and req = req and w = w and store = store
        and now = now, OF False assms(2,3)] by simp
next
  case True
  with assms(1) have other: "a \<noteq> req_ip req" by auto
  obtain over info store' where lim: "limiter store now (req_ip req) = (over, info, store')"
    by (cases "limiter store now (req_ip req)") auto
  from chain_limited_response [where rts = rts and cfg = cfg and req = req and store = store
      and now = now and w = w, OF True lim assms(2)]
  have "snd (snd (chain rts cfg w store now req)) = store'" by simp
  moreover from limiter_other [OF other, of store now] lim have "store' a = store a" by simp
  ultimately show ?thesis by simp
qed

lemma serve_counted:
  assumes quiet: "\<And>w req b. status (fst (rts cfg w req b)) \<noteq> 429"
    and plain: "\<And>w req b. rate_headers (fst (rts cfg w req b)) = None"
  shows "store a = Some (h, e) \<Longrightarrow>
     (\<forall>x\<in>set rs. counted cfg a x \<longrightarrow> fst x < e) \<Longrightarrow>
     i < length rs \<Longrightarrow> counted cfg a (rs ! i) \<Longrightarrow>
     (status (serve (chain rts cfg) store rs ! i) = 429
        \<longleftrightarrow> 5 \<le> h + length (filter (counted cfg a) (take i rs)))"
proof (induction rs arbitrary: store h i)
  case Nil
  then show ?case by simp
next
  case (Cons x rs)
  obtain t w r where x: "x = (t, w, r)" by (cases x)
  obtain res sent store' where c: "chain rts cfg w store t r = (res, sent, store')"
    by (cases "chain rts cfg w store t r") auto
  have out: "serve (chain rts cfg) store (x # rs) = res # serve (chain rts cfg) store' rs"
    by (simp add: x c)
  have rest: "\<forall>x\<in>set rs. counted cfg a x \<longrightarrow> fst x < e" using Cons.prems(2) by simp
  show ?case
  proof (cases "counted cfg a x")
    case True
    then have r: "reaches_limiter cfg r" "req_ip r = a" by (simp_all add: counted_def x)
    from True Cons.prems(2) have "t < e" by (simp add: x)
    then have lim: "limiter store t (req_ip r) =
        (5 \<le> h, \<lparr>rl_limit = 5, rl_remaining = 4 - h, rl_reset = (e - t + 999) div 1000\<rparr>,
         store(a \<mapsto> (h + 1, e)))"
      using Cons.prems(1) r by (simp add: limiter_counts)
    have "(status (fst (chain rts cfg w store t r)) = 429 \<longleftrightarrow> 5 \<le> h)
       \<and> rate_headers (fst (chain rts cfg w store t r)) =
           Some \<lparr>rl_limit = 5, rl_remaining = 4 - h, rl_reset = (e - t + 999) div 1000\<rparr>
       \<and> snd (snd (chain rts cfg w store t r)) = store(a \<mapsto> (h + 1, e))"
      using r(1) lim quiet by (rule chain_limited_response [where rts = rts])
    with c have res: "status res = 429 \<longleftrightarrow> 5 \<le> h" and store': "store' a = Some (h + 1, e)"
      by simp_all
    show ?thesis
    proof (cases i)
      case 0
      with res out show ?thesis by simp
    next
      case (Suc j)
      with Cons.prems have j: "j < length rs" "counted cfg a (rs ! j)" by simp_all
      from Cons.IH [where store = store' and h = "h + 1" and i = j, OF store' rest j]
      show ?thesis using out Suc True by simp
    qed
  next
    case False
    then have "\<not> (reaches_limiter cfg r \<and> req_ip r = a)" by (simp add: counted_def x)
    from chain_store_other [where rts = rts and cfg = cfg and req = r and a = a and w = w
        and store = store and now = t, OF this quiet plain] c Cons.prems(1)
    have store': "store' a = Some (h, e)" by simp
    show ?thesis
    proof (cases i)
      case 0
      with Cons.prems(4) False show ?thesis by simp
    next
      case (Suc j)
      with Cons.prems have j: "j < length rs" "counted cfg a (rs ! j)" by simp_all
      from Cons.IH [where store = store' and h = h and i = j, OF store' rest j]
      show ?thesis using out Suc False by simp
    qed
  qed
qed

lemma window_from_first:
  assumes quiet: "\<And>w req b. status (fst (rts cfg w req b)) \<noteq> 429"
    and plain: "\<And>w req b. rate_headers (fst (rts cfg w req b)) = None"
    and r1: "reaches_limiter cfg r1" "req_ip r1 = a"
    and fresh: "\<forall>h e. store a = Some (h, e) \<longrightarrow> e \<le> t1"
    and rest: "\<forall>x\<in>set rs. counted cfg a x \<longrightarrow> fst x < t1 + windowMs"
    and i: "i < length rs" "counted cfg a (rs ! i)"
  shows "status (serve (chain rts cfg) store ((t1, w1, r1) # rs) ! Suc i) = 429
     \<longleftrightarrow> 4 \<le> length (filter (counted cfg a) (take i rs))"
proof -
  let ?store = "store(a \<mapsto> (1, t1 + windowMs))"
  let ?info = "\<lparr>rl_limit = 5, rl_remaining = 4, rl_reset = 60\<rparr>"
  have lim: "limiter store t1 (req_ip r1) = (False, ?info, ?store)"
    using fresh r1 by (simp add: limiter_opens)
  have "(status (fst (chain rts cfg w1 store t1 r1)) = 429 \<longleftrightarrow> False)
     \<and> rate_headers (fst (chain rts cfg w1 store t1 r1)) = Some ?info
     \<and> snd (snd (chain rts cfg w1 store t1 r1)) = ?store"
    using r1(1) lim quiet by (rule chain_limited_response [where rts = rts])
  then obtain res sent where c: "chain rts cfg w1 store t1 r1 = (res, sent, ?store)"
    by (cases "chain rts cfg w1 store t1 r1") auto
  have out: "serve (chain rts cfg) store ((t1, w1, r1) # rs) = res # serve (chain rts cfg) ?store rs"
    by (simp add: c)
  have "?store a = Some (1, t1 + windowMs)" by simp
  from serve_counted [where rts = rts and cfg = cfg and store = ?store and a = a and h = 1
      and e = "t1 + windowMs" and rs = rs and i = i, OF quiet plain this rest i]
  show ?thesis unfolding out by simp
qed

text \<open>
  C6 (as amended). The window is 60000 ms and the cap 5, and the limiter stands in the
  chain after the CORS gate and the body parser: it counts the requests under
  \<^verbatim>\<open>/contact\<close> that both let through (\<open>reaches_limiter\<close>). Take six such requests
  from one address \<open>a\<close>, the first at \<open>t1\<close> with no window of \<open>a\<close> running, the
  others before \<open>t1 + 60000\<close>: the first five are not answered 429, the sixth is, with
  the limit 5, the remaining 0 and the seconds to the end of the window in its headers;
  and of six such requests inside a window of \<open>a\<close> that is already running the sixth
  is answered 429. With any other requests in between, a counted request of \<open>a\<close> in
  the window that the first one opened is answered 429 exactly when at least five
  counted requests of \<open>a\<close> came before it. A request that does not reach the limiter
  (refused by the CORS gate or by the body parser, a preflight, or for a path outside
  \<^verbatim>\<open>/contact\<close>, so \<^verbatim>\<open>/\<close>, \<^verbatim>\<open>/health\<close>, \<^verbatim>\<open>/debug/verify\<close>) is never answered 429,
  carries no rate headers and leaves the store as it is. A request of \<open>a\<close> that
  arrives when its window has ended is not answered 429 and opens a window.
\<close>

theorem limiter_guards_contact_only:
  "(length rs = 5
      \<and> (\<forall>(t, w, r) \<in> set ((t1, w1, r1) # rs).
            reaches_limiter cfg r \<and> req_ip r = a \<and> t < t1 + windowMs)
      \<and> (\<forall>h e. store a = Some (h, e) \<longrightarrow> e \<le> t1) \<longrightarrow>
      (\<forall>i<5. status (serve (app cfg) store ((t1, w1, r1) # rs) ! i) \<noteq> 429)
      \<and> status (serve (app cfg) store ((t1, w1, r1) # rs) ! 5) = 429
      \<and> rate_headers (serve (app cfg) store ((t1, w1, r1) # rs) ! 5) =
          Some \<lparr>rl_limit = 5, rl_remaining = 0,
                rl_reset = (t1 + windowMs - fst (rs ! 4) + 999) div 1000\<rparr>
      \<and> (\<forall>i<5. status (serve (app_api cfg) store ((t1, w1, r1) # rs) ! i) \<noteq> 429)
      \<and> status (serve (app_api cfg) store ((t1, w1, r1) # rs) ! 5) = 429
      \<and> rate_headers (serve (app_api cfg) store ((t1, w1, r1) # rs) ! 5) =
          Some \<lparr>rl_limit = 5, rl_remaining = 0,
                rl_reset = (t1 + windowMs - fst (rs ! 4) + 999) div 1000\<rparr>)
   \<and> (length qs = 6
      \<and> (\<forall>(t, w, r) \<in> set qs. reaches_limiter cfg r \<and> req_ip r = a \<and> t < e)
      \<and> store a = Some (h, e) \<longrightarrow>
      status (serve (app cfg) store qs ! 5) = 429
      \<and> status (serve (app_api cfg) store qs ! 5) = 429)
   \<and> (req_target req \<notin> {Contact, BelowContact} \<longrightarrow>
        status (fst (app cfg w store now req)) \<noteq> 429
        \<and> rate_headers (fst (app cfg w store now req)) = None
        \<and> snd (snd (app cfg w store now req)) = store
        \<and> status (fst (app_api cfg w store now req)) \<noteq> 429
        \<and> rate_headers (fst (app_api cfg w store now req)) = None
        \<and> snd (snd (app_api cfg w store now req)) = store)
   \<and> (reaches_limiter cfg req \<and> (\<forall>h e. store (req_ip req) = Some (h, e) \<longrightarrow> e \<le> now) \<longrightarrow>
        status (fst (app cfg w store now req)) \<noteq> 429
        \<and> rate_headers (fst (app cfg w store now req)) =
            Some \<lparr>rl_limit = 5, rl_remaining = 4, rl_reset = 60\<rparr>
        \<and> status (fst (app_api cfg w store now req)) \<noteq> 429
        \<and> rate_headers (fst (app_api cfg w store now req)) =
            Some \<lparr>rl_limit = 5, rl_remaining = 4, rl_reset = 60\<rparr>)
   \<and> (reaches_limiter cfg r1 \<and> req_ip r1 = a
        \<and> (\<forall>h e. store a = Some (h, e) \<longrightarrow> e \<le> t1)
        \<and> (\<forall>x\<in>set ys. counted cfg a x \<longrightarrow> fst x < t1 + windowMs)
        \<and> k < length ys \<and> counted cfg a (ys ! k) \<longrightarrow>
        (status (serve (app cfg) store ((t1, w1, r1) # ys) ! Suc k) = 429
           \<longleftrightarrow> 4 \<le> length (filter (counted cfg a) (take k ys)))
        \<and> (status (serve (app_api cfg) store ((t1, w1, r1) # ys) ! Suc k) = 429
           \<longleftrightarrow> 4 \<le> length (filter (counted cfg a) (take k ys))))
   \<and> (\<not> reaches_limiter cfg req \<longrightarrow>
        status (fst (app cfg w store now req)) \<noteq> 429
        \<and> rate_headers (fst (app cfg w store now req)) = None
        \<and> snd (snd (app cfg w store now req)) = store
        \<and> status (fst (app_api cfg w store now req)) \<noteq> 429
        \<and> rate_headers (fst (app_api cfg w store now req)) = None
        \<and> snd (snd (app_api cfg w store now req)) = store)
   \<and> windowMs = 60000 \<and> max_hits = 5"
  (is "?burst \<and> ?running \<and> ?elsewhere \<and> ?again \<and> ?interleaved \<and> ?uncounted \<and> ?constants")
proof -
  have apps: "app cfg = chain routes cfg" "app_api cfg = chain routes_api cfg"
    by (simp_all add: app_def app_api_def)
  have 1: ?burst
    unfolding apps
    using six_in_a_window [where rts = routes and cfg = cfg and rs = rs and store = store
        and a = a and ?t1.0 = t1 and ?w1.0 = w1 and ?r1.0 = r1, OF routes_status(1)]
      six_in_a_window [where rts = routes_api and cfg = cfg and rs = rs and store = store
        and a = a and ?t1.0 = t1 and ?w1.0 = w1 and ?r1.0 = r1, OF routes_status(2)]
    by blast
  have 5: ?running
  proof (intro impI, elim conjE)
    assume len: "length qs = 6"
      and qs: "\<forall>(t, w, r) \<in> set qs. reaches_limiter cfg r \<and> req_ip r = a \<and> t < e"
      and live: "store a = Some (h, e)"
    from len have i: "5 < length qs" by simp
    from serve_window [where rts = routes and cfg = cfg and store = store and a = a and h = h
          and e = e and rs = qs and i = 5, OF routes_status(1) live qs i]
      serve_window [where rts = routes_api and cfg = cfg and store = store and a = a and h = h
          and e = e and rs = qs and i = 5, OF routes_status(2) live qs i]
    show "status (serve (app cfg) store qs ! 5) = 429
      \<and> status (serve (app_api cfg) store qs ! 5) = 429"
      unfolding apps by simp
  qed
  have 2: ?elsewhere
    unfolding apps
    using chain_elsewhere [where rts = routes and cfg = cfg and req = req and w = w
        and store = store and now = now, OF _ routes_status(1) routes_headers(1)]
      chain_elsewhere [where rts = routes_api and cfg = cfg and req = req and w = w
        and store = store and now = now, OF _ routes_status(2) routes_headers(2)]
    by blast
  have 3: ?again
  proof (intro impI, elim conjE)
    assume r: "reaches_limiter cfg req"
      and fresh: "\<forall>h e. store (req_ip req) = Some (h, e) \<longrightarrow> e \<le> now"
    let ?info = "\<lparr>rl_limit = 5, rl_remaining = 4, rl_reset = 60\<rparr>"
    have lim: "limiter store now (req_ip req) =
        (False, ?info, store(req_ip req \<mapsto> (1, now + windowMs)))"
      using fresh by (simp add: limiter_opens)
    from chain_limited_response [where rts = routes, OF r lim routes_status(1), of w]
      chain_limited_response [where rts = routes_api, OF r lim routes_status(2), of w]
    show "status (fst (app cfg w store now req)) \<noteq> 429
        \<and> rate_headers (fst (app cfg w store now req)) = Some ?info
        \<and> status (fst (app_api cfg w store now req)) \<noteq> 429
        \<and> rate_headers (fst (app_api cfg w store now req)) = Some ?info"
      unfolding apps by simp
  qed
  have 4: ?constants by (simp add: windowMs_def max_hits_def)
  have 6: ?interleaved
  proof (intro impI, elim conjE)
    assume r1: "reaches_limiter cfg r1" "req_ip r1 = a"
      and fresh: "\<forall>h e. store a = Some (h, e) \<longrightarrow> e \<le> t1"
      and rest: "\<forall>x\<in>set ys. counted cfg a x \<longrightarrow> fst x < t1 + windowMs"
      and k: "k < length ys" "counted cfg a (ys ! k)"
    from window_from_first [where rts = routes and cfg = cfg and store = store and a = a
          and rs = ys and i = k and ?t1.0 = t1 and ?w1.0 = w1 and ?r1.0 = r1,
          OF routes_status(1) routes_headers(1) r1 fresh rest k]
      window_from_first [where rts = routes_api and cfg = cfg and store = store and a = a
          and rs = ys and i = k and ?t1.0 = t1 and ?w1.0 = w1 and ?r1.0 = r1,
          OF routes_status(2) routes_headers(2) r1 fresh rest k]
    show "(status (serve (app cfg) store ((t1, w1, r1) # ys) ! Suc k) = 429
           \<longleftrightarrow> 4 \<le> length (filter (counted cfg a) (take k ys)))
        \<and> (status (serve (app_api cfg) store ((t1, w1, r1) # ys) ! Suc k) = 429
           \<longleftrightarrow> 4 \<le> length (filter (counted cfg a) (take k ys)))"
      unfolding apps by blast
  qed
  have 7: ?uncounted
    unfolding apps
    using chain_uncounted [where rts = routes and cfg = cfg and req = req and w = w
        and store = store and now = now, OF _ routes_status(1) routes_headers(1)]
      chain_uncounted [where rts = routes_api and cfg = cfg and req = req and w = w
        and store = store and now = now, OF _ routes_status(2) routes_headers(2)]
    by blast
  from 1 5 2 3 4 6 7 show ?thesis by blast
qed

text \<open>
  Instances: of six posts within a minute the sixth is refused, one second before the
  window ends; \<^verbatim>\<open>/health\<close> is served to an address over the cap; at 60000 the
  address is served again, with 200.
\<close>

lemma friendly_reaches:
  "reaches_limiter smtp_config friendly_request"
  "reaches_limiter api_config friendly_request"
  "req_ip friendly_request = js ''203.0.113.9''"
  using example_origins(5,6)
  by (simp_all add: reaches_limiter_def cors_origin_allows)
     (simp_all add: friendly_request_def post_from_def)

lemma friendly_again:
  "app smtp_config delivering crowded 60000 friendly_request =
     ((res_json 200 ok_sent)\<lparr>rate_headers := Some \<lparr>rl_limit = 5, rl_remaining = 4, rl_reset = 60\<rparr>\<rparr>,
      [SendMail (jane_mail smtp_config)],
      crowded(js ''203.0.113.9'' \<mapsto> (1, 120000)))"
proof -
  have lim: "limiter crowded 60000 (req_ip friendly_request) =
      (False, \<lparr>rl_limit = 5, rl_remaining = 4, rl_reset = 60\<rparr>,
       crowded(js ''203.0.113.9'' \<mapsto> (1, 120000)))"
    by (simp add: limiter_def crowded_def friendly_reaches(3) max_hits_def windowMs_def)
  have body: "req_body friendly_request = Inr jane_body"
    by (simp add: friendly_request_def post_from_def)
  have "routes smtp_config delivering friendly_request jane_body =
      (res_json 200 ok_sent, [SendMail (jane_mail smtp_config)])"
    by (simp add: routes_def friendly_request_def post_from_def jane_contact delivering_def)
  with chain_under [OF friendly_reaches(1) lim body, of routes delivering]
  show ?thesis by (simp add: app_def)
qed

theorem limiter_guards_contact_only_witness:
  "status (serve (app smtp_config) no_hits burst ! 5) = 429
   \<and> rate_headers (serve (app smtp_config) no_hits burst ! 5) =
       Some \<lparr>rl_limit = 5, rl_remaining = 0, rl_reset = 1\<rparr>
   \<and> status (serve (app_api api_config) no_hits burst ! 5) = 429
   \<and> status (serve (app smtp_config) no_hits burst ! 4) \<noteq> 429
   \<and> status (serve (app smtp_config) crowded burst ! 5) = 429
   \<and> status (serve (app smtp_config) no_hits ((0, delivering, friendly_request) # interleaved_burst) ! 7) = 429
   \<and> status (serve (app smtp_config) no_hits ((0, delivering, friendly_request) # interleaved_burst) ! 6) \<noteq> 429
   \<and> status (fst (app smtp_config delivering crowded 30000 broken_request)) \<noteq> 429
   \<and> snd (snd (app smtp_config delivering crowded 30000 broken_request)) = crowded
   \<and> status (fst (app smtp_config delivering crowded 30000 health_request)) \<noteq> 429
   \<and> rate_headers (fst (app smtp_config delivering crowded 30000 health_request)) = None
   \<and> status (fst (app smtp_config delivering crowded 60000 friendly_request)) = 200
   \<and> rate_headers (fst (app smtp_config delivering crowded 60000 friendly_request)) =
       Some \<lparr>rl_limit = 5, rl_remaining = 4, rl_reset = 60\<rparr>"
proof -
  let ?rest = "[(1000, delivering, friendly_request),
      (2000, delivering, friendly_request), (3000, delivering, friendly_request),
      (4000, delivering, friendly_request), (59999, delivering, friendly_request)]"
  have burst: "burst = (0, delivering, friendly_request) # ?rest"
    by (simp add: burst_def)
  have fresh: "\<forall>h e. no_hits (js ''203.0.113.9'') = Some (h, e) \<longrightarrow> e \<le> 0"
    by (simp add: no_hits_def)
  have expired: "\<forall>h e. crowded (req_ip friendly_request) = Some (h, e) \<longrightarrow> e \<le> 60000"
    by (simp add: crowded_def friendly_reaches(3))
  have elsewhere: "req_target health_request \<notin> {Contact, BelowContact}"
    by (simp add: health_request_def)
  have reset: "(0 + windowMs - fst (?rest ! 4) + 999) div 1000 = 1"
    by (simp add: windowMs_def)
  have hyp: "length ?rest = 5
      \<and> (\<forall>(t, w, r) \<in> set ((0, delivering, friendly_request) # ?rest).
            reaches_limiter cfg r \<and> req_ip r = js ''203.0.113.9'' \<and> t < 0 + windowMs)
      \<and> (\<forall>h e. no_hits (js ''203.0.113.9'') = Some (h, e) \<longrightarrow> e \<le> 0)"
    if "reaches_limiter cfg friendly_request" for cfg
    using that fresh friendly_reaches(3) by (simp add: windowMs_def)
  have a: "status (serve (app smtp_config) no_hits burst ! 5) = 429"
    "rate_headers (serve (app smtp_config) no_hits burst ! 5) =
       Some \<lparr>rl_limit = 5, rl_remaining = 0, rl_reset = 1\<rparr>"
    "status (serve (app smtp_config) no_hits burst ! 4) \<noteq> 429"
    using limiter_guards_contact_only
      [where rs = ?rest and ?t1.0 = 0 and ?w1.0 = delivering and ?r1.0 = friendly_request
         and a = "js ''203.0.113.9''" and store = no_hits and cfg = smtp_config,
       THEN conjunct1, THEN mp, OF hyp [OF friendly_reaches(1)]]
    unfolding burst reset by (simp_all del: serve.simps)
  have b: "status (serve (app_api api_config) no_hits burst ! 5) = 429"
    using limiter_guards_contact_only
      [where rs = ?rest and ?t1.0 = 0 and ?w1.0 = delivering and ?r1.0 = friendly_request
         and a = "js ''203.0.113.9''" and store = no_hits and cfg = api_config,
       THEN conjunct1, THEN mp, OF hyp [OF friendly_reaches(2)]]
    unfolding burst by (simp del: serve.simps)
  have running: "length burst = 6
      \<and> (\<forall>(t, w, r) \<in> set burst.
            reaches_limiter smtp_config r \<and> req_ip r = js ''203.0.113.9'' \<and> t < 60000)
      \<and> crowded (js ''203.0.113.9'') = Some (6, 60000)"
    using friendly_reaches by (simp add: burst crowded_def)
  have f: "status (serve (app smtp_config) crowded burst ! 5) = 429"
    using limiter_guards_contact_only
      [where qs = burst and cfg = smtp_config and a = "js ''203.0.113.9''" and store = crowded
         and h = 6 and e = 60000, THEN conjunct2, THEN conjunct1, THEN mp, OF running]
    by simp
  have c: "status (fst (app smtp_config delivering crowded 30000 health_request)) \<noteq> 429"
    "rate_headers (fst (app smtp_config delivering crowded 30000 health_request)) = None"
    using limiter_guards_contact_only
      [where req = health_request and cfg = smtp_config and w = delivering and store = crowded
         and now = 30000, THEN conjunct2, THEN conjunct2, THEN conjunct1, THEN mp, OF elsewhere]
    by simp_all
  have again: "reaches_limiter smtp_config friendly_request
      \<and> (\<forall>h e. crowded (req_ip friendly_request) = Some (h, e) \<longrightarrow> e \<le> 60000)"
    using expired friendly_reaches(1) by simp
  have d: "rate_headers (fst (app smtp_config delivering crowded 60000 friendly_request)) =
       Some \<lparr>rl_limit = 5, rl_remaining = 4, rl_reset = 60\<rparr>"
    using limiter_guards_contact_only
      [where req = friendly_request and cfg = smtp_config and w = delivering and store = crowded
         and now = 60000, THEN conjunct2, THEN conjunct2, THEN conjunct2, THEN conjunct1, THEN mp,
         OF again]
    by simp
  have e: "status (fst (app smtp_config delivering crowded 60000 friendly_request)) = 200"
    by (simp add: friendly_again res_json_def)
  have cnt: "counted smtp_config (js ''203.0.113.9'') (t, w, friendly_request)"
    "\<not> counted smtp_config (js ''203.0.113.9'') (t, w, broken_request)"
    "\<not> counted smtp_config (js ''203.0.113.9'') (t, w, health_request)" for t w
    using friendly_reaches
    by (simp_all add: counted_def reaches_limiter_def broken_request_def health_request_def)
  have early: "\<forall>x\<in>set interleaved_burst.
      counted smtp_config (js ''203.0.113.9'') x \<longrightarrow> fst x < 0 + windowMs"
    by (simp add: interleaved_burst_def windowMs_def)
  have seventh: "reaches_limiter smtp_config friendly_request
      \<and> req_ip friendly_request = js ''203.0.113.9''
      \<and> (\<forall>h e. no_hits (js ''203.0.113.9'') = Some (h, e) \<longrightarrow> e \<le> 0)
      \<and> (\<forall>x\<in>set interleaved_burst.
            counted smtp_config (js ''203.0.113.9'') x \<longrightarrow> fst x < 0 + windowMs)
      \<and> k < length interleaved_burst
      \<and> counted smtp_config (js ''203.0.113.9'') (interleaved_burst ! k)"
    if "k = 6 \<or> k = 5" for k
    using that friendly_reaches fresh early cnt by (auto simp: interleaved_burst_def)
  have n: "length (filter (counted smtp_config (js ''203.0.113.9'')) (take 6 interleaved_burst)) = 4"
    "length (filter (counted smtp_config (js ''203.0.113.9'')) (take 5 interleaved_burst)) = 3"
    by (simp_all add: interleaved_burst_def cnt)
  have g: "status (serve (app smtp_config) no_hits
        ((0, delivering, friendly_request) # interleaved_burst) ! 7) = 429"
    "status (serve (app smtp_config) no_hits
        ((0, delivering, friendly_request) # interleaved_burst) ! 6) \<noteq> 429"
    using limiter_guards_contact_only
      [where ys = interleaved_burst and cfg = smtp_config and a = "js ''203.0.113.9''"
         and store = no_hits and ?t1.0 = 0 and ?w1.0 = delivering and ?r1.0 = friendly_request
         and k = 6, THEN conjunct2, THEN conjunct2, THEN conjunct2, THEN conjunct2,
       THEN conjunct1, THEN mp, OF seventh] n
      limiter_guards_contact_only
      [where ys = interleaved_burst and cfg = smtp_config and a = "js ''203.0.113.9''"
         and store = no_hits and ?t1.0 = 0 and ?w1.0 = delivering and ?r1.0 = friendly_request
         and k = 5, THEN conjunct2, THEN conjunct2, THEN conjunct2, THEN conjunct2,
       THEN conjunct1, THEN mp, OF seventh]
    by (simp_all del: serve.simps)
  have refused: "\<not> reaches_limiter smtp_config broken_request"
    by (simp add: reaches_limiter_def broken_request_def)
  have u: "status (fst (app smtp_config delivering crowded 30000 broken_request)) \<noteq> 429"
    "snd (snd (app smtp_config delivering crowded 30000 broken_request)) = crowded"
    using limiter_guards_contact_only
      [where req = broken_request and cfg = smtp_config and w = delivering and store = crowded
         and now = 30000, THEN conjunct2, THEN conjunct2, THEN conjunct2, THEN conjunct2,
       THEN conjunct2, THEN conjunct1, THEN mp, OF refused]
    by simp_all
  from a b c d e f g u show ?thesis by simp
qed

text \<open>
  A post whose body the parser refuses is answered by the error handler before the
  limiter; the first counted post of an address is served.
\<close>

lemma chain_unparsed:
  "cors_origin (allowList cfg) (req_origin req) = Inr True \<Longrightarrow> req_method req \<noteq> OPTIONS \<Longrightarrow>
   req_body req = Inl err \<Longrightarrow>
   chain rts cfg w store now req = (res_json 500 (error_body (js ''Internal server error.'')), [], store)"
  by (simp add: chain_def error_handler_def)

lemma broken_answer:
  "app smtp_config w store now broken_request =
     (res_json 500 (error_body (js ''Internal server error.'')), [], store)"
  "app_api api_config w store now broken_request =
     (res_json 500 (error_body (js ''Internal server error.'')), [], store)"
proof -
  have o: "cors_origin (allowList smtp_config) (req_origin broken_request) = Inr True"
    "cors_origin (allowList api_config) (req_origin broken_request) = Inr True"
    using example_origins(5,6) by (simp_all add: cors_origin_allows broken_request_def)
  have m: "req_method broken_request \<noteq> OPTIONS"
    "req_body broken_request = Inl (JsError (js ''SyntaxError'') (js ''Unexpected end of JSON input''))"
    by (simp_all add: broken_request_def)
  show "app smtp_config w store now broken_request =
     (res_json 500 (error_body (js ''Internal server error.'')), [], store)"
    unfolding app_def by (rule chain_unparsed [OF o(1) m])
  show "app_api api_config w store now broken_request =
     (res_json 500 (error_body (js ''Internal server error.'')), [], store)"
    unfolding app_api_def by (rule chain_unparsed [OF o(2) m])
qed

lemma friendly_first:
  "status (fst (app smtp_config delivering no_hits 59999 friendly_request)) = 200"
  "status (fst (app_api api_config delivering no_hits 59999 friendly_request)) = 200"
proof -
  let ?info = "\<lparr>rl_limit = 5, rl_remaining = 4, rl_reset = 60\<rparr>"
  have lim: "limiter no_hits 59999 (req_ip friendly_request) =
      (False, ?info, no_hits(req_ip friendly_request \<mapsto> (1, 59999 + windowMs)))"
    by (simp add: limiter_opens no_hits_def)
  have body: "req_body friendly_request = Inr jane_body"
    by (simp add: friendly_request_def post_from_def)
  have "routes smtp_config delivering friendly_request jane_body =
      (res_json 200 ok_sent, [SendMail (jane_mail smtp_config)])"
    by (simp add: routes_def friendly_request_def post_from_def jane_contact delivering_def)
  with chain_under [OF friendly_reaches(1) lim body, of routes delivering]
  show "status (fst (app smtp_config delivering no_hits 59999 friendly_request)) = 200"
    by (simp add: app_def res_json_def)
  have "fst (routes_api api_config delivering friendly_request jane_body) = res_json 200 ok_sent"
    by (simp add: routes_api_def friendly_request_def post_from_def jane_contact_api
        sendViaBrevoAPI_def delivering_def api_config_def js_def)
  with chain_under [OF friendly_reaches(2) lim body, of routes_api delivering]
  show "status (fst (app_api api_config delivering no_hits 59999 friendly_request)) = 200"
    by (simp add: app_api_def res_json_def)
qed

text \<open>
  C6 as stated fails: \<^verbatim>\<open>express.json\<close> stands before the limiter, so posts to
  \<^verbatim>\<open>/contact\<close> that the parser refuses are not counted. Of six posts from one address
  within a minute, five of them unparseable, the sixth is answered 200; of six
  unparseable ones the sixth is answered 500, as the others.
\<close>

theorem unparsed_posts_counterexample:
  "map status (serve (app smtp_config) no_hits mixed_burst) = [500, 500, 500, 500, 500, 200]
   \<and> map status (serve (app_api api_config) no_hits mixed_burst) = [500, 500, 500, 500, 500, 200]
   \<and> map status (serve (app smtp_config) no_hits broken_burst) = [500, 500, 500, 500, 500, 500]
   \<and> map status (serve (app_api api_config) no_hits broken_burst) = [500, 500, 500, 500, 500, 500]
   \<and> map req_target (map snd (map snd mixed_burst)) =
       [Contact, Contact, Contact, Contact, Contact, Contact]
   \<and> set (map req_ip (map snd (map snd mixed_burst))) = {js ''203.0.113.9''}
   \<and> map fst mixed_burst = [0, 1000, 2000, 3000, 4000, 59999]"
proof -
  have s: "status (res_json 500 j) = 500" for j by (simp add: res_json_def)
  have "map status (serve (app smtp_config) no_hits mixed_burst) = [500, 500, 500, 500, 500, 200]"
    "map status (serve (app_api api_config) no_hits mixed_burst) = [500, 500, 500, 500, 500, 200]"
    using friendly_first
    by (simp_all add: mixed_burst_def broken_answer s case_prod_beta)
  moreover have "map status (serve (app smtp_config) no_hits broken_burst) = [500, 500, 500, 500, 500, 500]"
    "map status (serve (app_api api_config) no_hits broken_burst) = [500, 500, 500, 500, 500, 500]"
    by (simp_all add: broken_burst_def broken_answer s)
  moreover have "map req_target (map snd (map snd mixed_burst)) =
       [Contact, Contact, Contact, Contact, Contact, Contact]"
    "set (map req_ip (map snd (map snd mixed_burst))) = {js ''203.0.113.9''}"
    "map fst mixed_burst = [0, 1000, 2000, 3000, 4000, 59999]"
    by (simp_all add: mixed_burst_def broken_request_def friendly_request_def post_from_def)
  ultimately show ?thesis by blast
qed

section \<open>C9: the backend chosen at startup\<close>

text \<open>What a started server of the variant with the mail API holds, and which backend its handler calls.\<close>

lemma startup_api_cases:
  "startup_api env = Listening cfg \<Longrightarrow>
     BREVO_API_KEY cfg = env_BREVO_API_KEY env
     \<and> (if missing (env_BREVO_API_KEY env) then transporter cfg = Some (smtp_of env)
         else transporter cfg = None)"
  by (auto simp: startup_api_def split: if_splits)

lemma contact_api_backend:
  "d \<in> set (snd (contact_api cfg w b)) \<Longrightarrow>
     (case d of BrevoPost r \<Rightarrow> \<not> missing (BREVO_API_KEY cfg)
              | SendMail m \<Rightarrow> missing (BREVO_API_KEY cfg) \<and> transporter cfg \<noteq> None)"
proof (cases "read_fields sanitize_api b")
  case (Inl e)
  assume "d \<in> set (snd (contact_api cfg w b))"
  with Inl show ?thesis by (simp add: contact_api_def)
next
  case (Inr f)
  assume "d \<in> set (snd (contact_api cfg w b))"
  then show ?thesis
    unfolding contact_api_fields [OF Inr]
    by (auto split: if_splits option.splits)
qed

text \<open>
  C9 (as amended). In the variant with the HTTP mail API (src/unnamed/part_001): with an
  API key that is set and not empty the server starts and serves without a transporter;
  without one it starts and serves with the SMTP transporter when host, user and
  password are all set, and otherwise the process exits with status 1 and answers no
  request; a handler of a started server calls only the backend chosen at startup, and
  calls it for every submission that passes the honeypot and the four rules. In
  src/server.js, which has the SMTP backend only and reads no API key, the process starts
  and serves with the SMTP transporter when host, user and password are all set, and
  exits with status 1, answering no request, whenever one of them is missing; its
  handler calls \<^verbatim>\<open>sendMail\<close> only, for every submission that passes.
\<close>

theorem one_backend_or_exit:
  "(\<not> missing (env_BREVO_API_KEY env) \<longrightarrow>
      (\<exists>cfg. startup_api env = Listening cfg \<and> \<not> missing (BREVO_API_KEY cfg) \<and> transporter cfg = None
         \<and> process_api env reqs = Inr (serve (app_api cfg) Map.empty reqs)))
   \<and> (missing (env_BREVO_API_KEY env) \<and> \<not> missing (env_SMTP_HOST env)
        \<and> \<not> missing (env_SMTP_USER env) \<and> \<not> missing (env_SMTP_PASS env) \<longrightarrow>
      (\<exists>cfg. startup_api env = Listening cfg \<and> missing (BREVO_API_KEY cfg)
         \<and> transporter cfg = Some (smtp_of env)
         \<and> process_api env reqs = Inr (serve (app_api cfg) Map.empty reqs)))
   \<and> (missing (env_BREVO_API_KEY env)
        \<and> (missing (env_SMTP_HOST env) \<or> missing (env_SMTP_USER env) \<or> missing (env_SMTP_PASS env)) \<longrightarrow>
      startup_api env = Exited 1 \<and> process_api env reqs = Inl 1)
   \<and> (startup_api env = Listening cfg \<and> d \<in> set (snd (contact_api cfg w b)) \<longrightarrow>
      (case d of BrevoPost r \<Rightarrow> \<not> missing (env_BREVO_API_KEY env)
               | SendMail m \<Rightarrow> missing (env_BREVO_API_KEY env)))
   \<and> (startup_api env = Listening cfg \<and> read_fields sanitize_api b = Inr g \<and> honeypot g = []
        \<and> first_broken g = None \<longrightarrow>
      snd (contact_api cfg w b) =
        (if missing (env_BREVO_API_KEY env) then [SendMail (payload_of cfg g)]
         else [BrevoPost (brevo_request_of (payload_of cfg g))]))
   \<and> (missing (env_SMTP_HOST env) \<or> missing (env_SMTP_USER env) \<or> missing (env_SMTP_PASS env) \<longrightarrow>
      startup env = Exited 1 \<and> process env reqs = Inl 1)
   \<and> (\<not> missing (env_SMTP_HOST env) \<and> \<not> missing (env_SMTP_USER env)
        \<and> \<not> missing (env_SMTP_PASS env) \<longrightarrow>
      (\<exists>cfg. startup env = Listening cfg \<and> transporter cfg = Some (smtp_of env)
         \<and> process env reqs = Inr (serve (app cfg) Map.empty reqs)))
   \<and> (d \<in> set (snd (contact cfg w b)) \<longrightarrow> (\<exists>m. d = SendMail m))
   \<and> (read_fields sanitize b = Inr f \<and> honeypot f = [] \<and> first_broken f = None \<longrightarrow>
      snd (contact cfg w b) = [SendMail (mail_of cfg f)])"
  (is "?key \<and> ?smtp \<and> ?exit \<and> ?used \<and> ?called \<and> ?server_exit \<and> ?server_run \<and> ?server_used
       \<and> ?server_called")
proof -
  have 1: ?key by (simp add: startup_api_def process_api_def)
  have 2: ?smtp by (simp add: startup_api_def process_api_def)
  have 3: ?exit by (auto simp: startup_api_def process_api_def)
  have 4: ?used
  proof (intro impI, elim conjE)
    assume l: "startup_api env = Listening cfg" and d: "d \<in> set (snd (contact_api cfg w b))"
    from startup_api_cases [OF l] have "BREVO_API_KEY cfg = env_BREVO_API_KEY env" by simp
    with contact_api_backend [OF d]
    show "case d of BrevoPost r \<Rightarrow> \<not> missing (env_BREVO_API_KEY env)
               | SendMail m \<Rightarrow> missing (env_BREVO_API_KEY env)"
      by (simp split: dispatch.splits)
  qed
  have 5: ?called
  proof (intro impI, elim conjE)
    assume l: "startup_api env = Listening cfg" and r: "read_fields sanitize_api b = Inr g"
      and v: "honeypot g = []" "first_broken g = None"
    from startup_api_cases [OF l]
    have k: "BREVO_API_KEY cfg = env_BREVO_API_KEY env"
      "missing (env_BREVO_API_KEY env) \<Longrightarrow> transporter cfg = Some (smtp_of env)"
      by simp_all
    from v have ok: "\<not> length (name g) < 2" "isEmail (email g)" "\<not> length (subject g) < 2"
      "\<not> length (message g) < 10"
      by (simp_all add: first_broken_cases split: if_splits)
    show "snd (contact_api cfg w b) =
        (if missing (env_BREVO_API_KEY env) then [SendMail (payload_of cfg g)]
         else [BrevoPost (brevo_request_of (payload_of cfg g))])"
      unfolding contact_api_fields [OF r] using v(1) ok k
      by (auto split: option.splits)
  qed
  have 6: ?server_exit by (auto simp: startup_def process_def)
  have 7: ?server_run by (simp add: startup_def process_def)
  have 8: ?server_used
  proof (cases "read_fields sanitize b")
    case (Inl e)
    then show ?thesis by (simp add: contact_def)
  next
    case (Inr f')
    show ?thesis
      unfolding contact_fields [OF Inr]
      by (auto split: if_splits option.splits)
  qed
  have 9: ?server_called
  proof (intro impI, elim conjE)
    assume r: "read_fields sanitize b = Inr f" and v: "honeypot f = []" "first_broken f = None"
    from v have ok: "\<not> length (name f) < 2" "isEmail (email f)" "\<not> length (subject f) < 2"
      "\<not> length (message f) < 10"
      by (simp_all add: first_broken_cases split: if_splits)
    show "snd (contact cfg w b) = [SendMail (mail_of cfg f)]"
      unfolding contact_fields [OF r] using v(1) ok
      by (auto split: option.splits)
  qed
  from 1 2 3 4 5 6 7 8 9 show ?thesis by blast
qed

text \<open>
  Instances: an environment with only a key, one with only the SMTP settings, an empty
  one; the valid submission on the servers they start.
\<close>

lemma example_startups:
  "startup_api key_env = Listening api_config"
  "startup smtp_env = Listening smtp_config"
  "startup both_env = Listening smtp_config"
  by (simp_all add: startup_api_def startup_def key_env_def smtp_env_def both_env_def bare_env_def
      api_config_def smtp_config_def smtp_of_def js_def)

theorem one_backend_or_exit_witness:
  "(\<exists>cfg. startup_api key_env = Listening cfg \<and> transporter cfg = None
      \<and> process_api key_env [] = Inr (serve (app_api cfg) Map.empty []))
   \<and> (\<exists>cfg. startup_api smtp_env = Listening cfg \<and> transporter cfg = Some (smtp_of smtp_env))
   \<and> (\<exists>cfg. startup smtp_env = Listening cfg \<and> transporter cfg = Some (smtp_of smtp_env))
   \<and> process_api bare_env [] = Inl 1
   \<and> process bare_env [] = Inl 1
   \<and> snd (contact_api api_config delivering jane_body) = [BrevoPost (brevo_request_of (payload_of api_config jane))]
   \<and> snd (contact smtp_config delivering jane_body) = [SendMail (mail_of smtp_config jane)]
   \<and> \<not> missing (env_BREVO_API_KEY key_env)"
proof -
  have envs: "\<not> missing (env_BREVO_API_KEY key_env)"
    "missing (env_BREVO_API_KEY smtp_env)" "\<not> missing (env_SMTP_HOST smtp_env)"
    "\<not> missing (env_SMTP_USER smtp_env)" "\<not> missing (env_SMTP_PASS smtp_env)"
    "missing (env_BREVO_API_KEY bare_env)" "missing (env_SMTP_HOST bare_env)"
    by (simp_all add: key_env_def smtp_env_def bare_env_def js_def)
  have valid: "honeypot jane = []" "first_broken jane = None"
    by (simp_all add: jane_valid jane_first_broken)
  from one_backend_or_exit [where env = key_env and reqs = "[]"] envs
  have a: "\<exists>cfg. startup_api key_env = Listening cfg \<and> transporter cfg = None
      \<and> process_api key_env [] = Inr (serve (app_api cfg) Map.empty [])"
    by blast
  from one_backend_or_exit [where env = smtp_env] envs
  have b: "\<exists>cfg. startup_api smtp_env = Listening cfg \<and> transporter cfg = Some (smtp_of smtp_env)"
    "\<exists>cfg. startup smtp_env = Listening cfg \<and> transporter cfg = Some (smtp_of smtp_env)"
    by blast+
  from one_backend_or_exit [where env = bare_env and reqs = "[]"] envs
  have c: "process_api bare_env [] = Inl 1" "process bare_env [] = Inl 1"
    by simp_all
  from one_backend_or_exit [where env = key_env and cfg = api_config and w = delivering
      and b = jane_body and g = jane and f = jane] envs valid
  have d: "snd (contact_api api_config delivering jane_body) =
      [BrevoPost (brevo_request_of (payload_of api_config jane))]"
    by (simp add: example_startups jane_fields_api)
  from one_backend_or_exit [where env = smtp_env and cfg = smtp_config and w = delivering
      and b = jane_body and g = jane and f = jane] valid
  have e: "snd (contact smtp_config delivering jane_body) = [SendMail (mail_of smtp_config jane)]"
    by (simp add: jane_fields)
  from a b c d e envs(1) show ?thesis by simp
qed

text \<open>
  C9 as stated fails in src/server.js, which never reads the API key: with a key and
  without SMTP settings the process exits, and with a key and the SMTP settings the
  server mails through SMTP, where the claim has the mail API used.
\<close>

theorem key_ignored_counterexample:
  "\<not> missing (env_BREVO_API_KEY key_env)
   \<and> startup key_env = Exited 1
   \<and> process key_env burst = Inl 1
   \<and> \<not> missing (env_BREVO_API_KEY both_env)
   \<and> startup both_env = Listening smtp_config
   \<and> snd (contact smtp_config delivering jane_body) = [SendMail (jane_mail smtp_config)]"
proof -
  have "\<not> missing (env_BREVO_API_KEY key_env)" "\<not> missing (env_BREVO_API_KEY both_env)"
    by (simp_all add: key_env_def both_env_def smtp_env_def bare_env_def js_def)
  moreover have "startup key_env = Exited 1"
    by (simp add: startup_def key_env_def bare_env_def)
  moreover from this have "process key_env burst = Inl 1"
    by (simp add: process_def)
  moreover have "snd (contact smtp_config delivering jane_body) = [SendMail (jane_mail smtp_config)]"
    by (simp add: jane_contact delivering_def)
  ultimately show ?thesis using example_startups(3) by simp
qed

section \<open>C10: the checks see sanitized fields\<close>

text \<open>The sanitizer on a string is \<open>trim\<close>, and a string of white space trims to nothing.\<close>

lemma trim_Nil: "trim [] = []"
  by (simp add: trim_def)

lemma trim_white: "list_all isWhiteSpace h \<Longrightarrow> trim h = []"
  by (auto simp: trim_def list_all_iff dest: set_dropWhileD)

lemma sanitize_JStr:
  "sanitize (Some (JStr s)) = Inr (trim s)"
  "sanitize_api (Some (JStr s)) = Inr (trim s)"
  by (simp_all add: sanitize_def sanitize_api_def trim_Nil)

lemma read_fields_Inr:
  "read_fields san b = Inr f \<Longrightarrow>
     san (field b (js ''name'')) = Inr (name f)
     \<and> san (field b (js ''email'')) = Inr (email f)
     \<and> san (field b (js ''subject'')) = Inr (subject f)
     \<and> san (field b (js ''message'')) = Inr (message f)
     \<and> san (field b (js ''source'')) = Inr (source f)
     \<and> san (field b (js ''website'')) = Inr (honeypot f)"
  by (auto simp: read_fields_def split: sum.splits)

lemma string_fields:
  assumes "read_fields san b = Inr f"
    and "san (Some (JStr n)) = Inr (trim n)" "san (Some (JStr s)) = Inr (trim s)"
    and "san (Some (JStr m)) = Inr (trim m)" "san (Some (JStr h)) = Inr (trim h)"
    and "field b (js ''name'') = Some (JStr n)" "field b (js ''subject'') = Some (JStr s)"
    and "field b (js ''message'') = Some (JStr m)" "field b (js ''website'') = Some (JStr h)"
  shows "name f = trim n \<and> subject f = trim s \<and> message f = trim m \<and> honeypot f = trim h"
  using read_fields_Inr [OF assms(1)] assms(2-) by simp

text \<open>
  C10. The handler's answer depends on the body only through the six sanitized fields
  (\<open>read_fields\<close>, which applies the sanitizer to each field before any test); on a
  string the sanitizer is \<open>trim\<close>. So with a \<^verbatim>\<open>website\<close> that is a string of white
  space the honeypot does not fire and the four rules run, and the lengths compared with 2, 2
  and 10 are those of the trimmed name, subject and message.
\<close>

theorem checks_see_sanitized_fields:
  "(read_fields sanitize b = read_fields sanitize b' \<longrightarrow> contact cfg w b = contact cfg w b')
   \<and> (read_fields sanitize_api b = read_fields sanitize_api b' \<longrightarrow>
        contact_api cfg w b = contact_api cfg w b')
   \<and> (read_fields sanitize b = Inr f
        \<and> field b (js ''name'') = Some (JStr n) \<and> field b (js ''subject'') = Some (JStr s)
        \<and> field b (js ''message'') = Some (JStr m) \<and> field b (js ''website'') = Some (JStr h)
        \<and> list_all isWhiteSpace h \<longrightarrow>
        contact cfg w b =
          (if length (trim n) < 2 then (res_json 400 (error_body (rule_message NameRule)), [])
           else if \<not> isEmail (email f) then (res_json 400 (error_body (rule_message EmailRule)), [])
           else if length (trim s) < 2 then (res_json 400 (error_body (rule_message SubjectRule)), [])
           else if length (trim m) < 10 then (res_json 400 (error_body (rule_message MessageRule)), [])
           else (case sendMail w (mail_of cfg f) of
                   Some err \<Rightarrow> (res_json 500 (error_body (error_text err)), [SendMail (mail_of cfg f)])
                 | None \<Rightarrow> (res_json 200 ok_sent, [SendMail (mail_of cfg f)]))))
   \<and> (read_fields sanitize_api b = Inr g
        \<and> field b (js ''name'') = Some (JStr n) \<and> field b (js ''subject'') = Some (JStr s)
        \<and> field b (js ''message'') = Some (JStr m) \<and> field b (js ''website'') = Some (JStr h)
        \<and> list_all isWhiteSpace h \<and> missing (BREVO_API_KEY cfg) \<and> transporter cfg = Some t \<longrightarrow>
        contact_api cfg w b =
          (if length (trim n) < 2 then (res_json 400 (error_body (rule_message_api NameRule)), [])
           else if \<not> isEmail (email g) then (res_json 400 (error_body (rule_message_api EmailRule)), [])
           else if length (trim s) < 2 then (res_json 400 (error_body (rule_message_api SubjectRule)), [])
           else if length (trim m) < 10 then (res_json 400 (error_body (rule_message_api MessageRule)), [])
           else (case sendMail w (payload_of cfg g) of
                   Some err \<Rightarrow> (res_json 500 failed_to_send, [SendMail (payload_of cfg g)])
                 | None \<Rightarrow> (res_json 200 ok_sent, [SendMail (payload_of cfg g)]))))
   \<and> (read_fields sanitize_api b = Inr g
        \<and> field b (js ''name'') = Some (JStr n) \<and> field b (js ''subject'') = Some (JStr s)
        \<and> field b (js ''message'') = Some (JStr m) \<and> field b (js ''website'') = Some (JStr h)
        \<and> list_all isWhiteSpace h \<and> \<not> missing (BREVO_API_KEY cfg) \<longrightarrow>
        contact_api cfg w b =
          (if length (trim n) < 2 then (res_json 400 (error_body (rule_message_api NameRule)), [])
           else if \<not> isEmail (email g) then (res_json 400 (error_body (rule_message_api EmailRule)), [])
           else if length (trim s) < 2 then (res_json 400 (error_body (rule_message_api SubjectRule)), [])
           else if length (trim m) < 10 then (res_json 400 (error_body (rule_message_api MessageRule)), [])
           else (case sendViaBrevoAPI w (payload_of cfg g) of
                   Some err \<Rightarrow> (res_json 500 failed_to_send, [BrevoPost (brevo_request_of (payload_of cfg g))])
                 | None \<Rightarrow> (res_json 200 ok_sent, [BrevoPost (brevo_request_of (payload_of cfg g))]))))
   \<and> (read_fields sanitize b = Inr f \<longrightarrow>
        sanitize (field b (js ''name'')) = Inr (name f)
        \<and> sanitize (field b (js ''email'')) = Inr (email f)
        \<and> sanitize (field b (js ''subject'')) = Inr (subject f)
        \<and> sanitize (field b (js ''message'')) = Inr (message f)
        \<and> sanitize (field b (js ''source'')) = Inr (source f)
        \<and> sanitize (field b (js ''website'')) = Inr (honeypot f))
   \<and> (read_fields sanitize_api b = Inr g \<longrightarrow>
        sanitize_api (field b (js ''name'')) = Inr (name g)
        \<and> sanitize_api (field b (js ''email'')) = Inr (email g)
        \<and> sanitize_api (field b (js ''subject'')) = Inr (subject g)
        \<and> sanitize_api (field b (js ''message'')) = Inr (message g)
        \<and> sanitize_api (field b (js ''source'')) = Inr (source g)
        \<and> sanitize_api (field b (js ''website'')) = Inr (honeypot g))
   \<and> sanitize (Some (JStr v)) = Inr (trim v)
   \<and> sanitize_api (Some (JStr v)) = Inr (trim v)"
  (is "?same \<and> ?same_api \<and> ?smtp \<and> ?fallback \<and> ?api \<and> ?read \<and> ?read_api \<and> ?str \<and> ?str_api")
proof -
  have 1: ?same by (simp add: contact_def)
  have 2: ?same_api by (simp add: contact_api_def)
  have 3: ?smtp
  proof (intro impI, elim conjE)
    assume r: "read_fields sanitize b = Inr f"
      and fs: "field b (js ''name'') = Some (JStr n)" "field b (js ''subject'') = Some (JStr s)"
        "field b (js ''message'') = Some (JStr m)" "field b (js ''website'') = Some (JStr h)"
      and h: "list_all isWhiteSpace h"
    have "name f = trim n \<and> subject f = trim s \<and> message f = trim m \<and> honeypot f = trim h"
      using r fs by (intro string_fields [where san = sanitize and b = b]) (simp_all add: sanitize_JStr)
    with h show "contact cfg w b =
          (if length (trim n) < 2 then (res_json 400 (error_body (rule_message NameRule)), [])
           else if \<not> isEmail (email f) then (res_json 400 (error_body (rule_message EmailRule)), [])
           else if length (trim s) < 2 then (res_json 400 (error_body (rule_message SubjectRule)), [])
           else if length (trim m) < 10 then (res_json 400 (error_body (rule_message MessageRule)), [])
           else (case sendMail w (mail_of cfg f) of
                   Some err \<Rightarrow> (res_json 500 (error_body (error_text err)), [SendMail (mail_of cfg f)])
                 | None \<Rightarrow> (res_json 200 ok_sent, [SendMail (mail_of cfg f)])))"
      by (simp add: contact_fields [OF r] trim_white)
  qed
  have api_fields: "name g = trim n \<and> subject g = trim s \<and> message g = trim m \<and> honeypot g = trim h"
    if "read_fields sanitize_api b = Inr g"
      "field b (js ''name'') = Some (JStr n)" "field b (js ''subject'') = Some (JStr s)"
      "field b (js ''message'') = Some (JStr m)" "field b (js ''website'') = Some (JStr h)"
    using that by (intro string_fields [where san = sanitize_api and b = b]) (simp_all add: sanitize_JStr)
  have 4: ?fallback
    using api_fields by (auto simp: contact_api_fields trim_white)
  have 5: ?api
    using api_fields by (auto simp: contact_api_fields trim_white)
  have 6: ?read using read_fields_Inr [of sanitize b f] by blast
  have 7: ?read_api using read_fields_Inr [of sanitize_api b g] by blast
  have 8: ?str by (rule sanitize_JStr)
  have 9: ?str_api by (rule sanitize_JStr)
  from 1 2 3 4 5 6 7 8 9 show ?thesis by blast
qed

text \<open>
  An instance: the name \<^verbatim>\<open>"  a  "\<close> has 5 code units and 1 after trim, the honeypot is
  three spaces; the answer is the name message, not the honeypot's.
\<close>

lemma padded_fields:
  "read_fields sanitize padded_body =
     Inr \<lparr>name = js ''a'', email = js ''a@b.co'', subject = js ''Hello'',
          message = js ''This is a test message.'', source = [], honeypot = []\<rparr>"
  "read_fields sanitize_api padded_body =
     Inr \<lparr>name = js ''a'', email = js ''a@b.co'', subject = js ''Hello'',
          message = js ''This is a test message.'', source = [], honeypot = []\<rparr>"
  by (simp_all add: read_fields_def sanitize_def sanitize_api_def padded_body_def js_def trim_def
      isWhiteSpace_def)

lemma padded_lookup:
  "field padded_body (js ''name'') = Some (JStr (js ''  a  ''))"
  "field padded_body (js ''subject'') = Some (JStr (js ''Hello''))"
  "field padded_body (js ''message'') = Some (JStr (js ''This is a test message.''))"
  "field padded_body (js ''website'') = Some (JStr (js ''   ''))"
  by (simp_all add: padded_body_def js_def)

theorem checks_see_sanitized_fields_witness:
  "length (js ''  a  '') = 5
   \<and> contact smtp_config delivering padded_body =
       (res_json 400 (error_body (js ''Name is required and must be at least 2 characters.'')), [])
   \<and> contact_api smtp_config delivering padded_body =
       (res_json 400 (error_body (js ''Name is required (min 2 chars).'')), [])
   \<and> contact_api api_config delivering padded_body =
       (res_json 400 (error_body (js ''Name is required (min 2 chars).'')), [])"
proof -
  let ?f = "\<lparr>name = js ''a'', email = js ''a@b.co'', subject = js ''Hello'',
          message = js ''This is a test message.'', source = [], honeypot = []\<rparr>"
  note inst = checks_see_sanitized_fields
    [where b = padded_body and f = ?f and g = ?f and w = delivering
       and n = "js ''  a  ''" and s = "js ''Hello''" and m = "js ''This is a test message.''"
       and h = "js ''   ''"]
  have white: "list_all isWhiteSpace (js ''   '')"
    by (simp add: js_def isWhiteSpace_def)
  have short: "length (trim (js ''  a  '')) < 2" "length (js ''  a  '') = 5"
    by (simp_all add: js_def trim_def isWhiteSpace_def)
  have keys: "\<not> missing (BREVO_API_KEY api_config)" "missing (BREVO_API_KEY smtp_config)"
    "transporter smtp_config =
       Some \<lparr>smtp_host = js ''smtp.example.com'', smtp_port = js ''587'',
             smtp_user = js ''user'', smtp_pass = js ''secret''\<rparr>"
    by (simp_all add: api_config_def smtp_config_def js_def)
  from inst [where cfg = smtp_config
      and t = "\<lparr>smtp_host = js ''smtp.example.com'', smtp_port = js ''587'',
             smtp_user = js ''user'', smtp_pass = js ''secret''\<rparr>"]
    inst [where cfg = api_config] white short keys
  show ?thesis
    by (simp add: padded_fields padded_lookup)
qed

end
